theory Spec2Isabelle
  imports Main "HOL-Library.Word"
begin

unbundle bit_operations_syntax

section \<open>The ELF disassembly driver of rv8 (src/app/riscv-parse-elf.cc)\<close>

text \<open>
  The file embeds \<^verbatim>\<open>struct riscv_parse_elf\<close>: its colorizer, its name resolver, the
  branch label scan, the disassembly printer, the command line handling and \<^verbatim>\<open>run\<close>.
  Standard output is a \<open>string\<close> that grows by appending. A walk over a region that never
  leaves its \<^verbatim>\<open>while\<close> loop has the value \<open>None\<close>.
\<close>

subsection \<open>Types declared in headers that are not part of the source tree\<close>

text \<open>\<^verbatim>\<open>riscv_ptr\<close> is a host pointer; the host is taken to be a 64-bit machine.\<close>

type_synonym riscv_ptr = "64 word"

text \<open>
  Modelled from the spec: the enumeration \<^verbatim>\<open>riscv_inst_type\<close> (riscv-meta.h is missing).
  The spec gives the classification as conditional branch, unconditional jump, or other.
\<close>

datatype riscv_inst_type = riscv_inst_type_sb | riscv_inst_type_uj | riscv_inst_type_other

text \<open>
  Modelled from the spec: the Instruction Record \<^verbatim>\<open>riscv_decode\<close> (riscv-decode.h is
  missing), with the two fields the driver reads: the classification and the signed immediate.
\<close>

record riscv_decode =
  type :: riscv_inst_type
  imm :: "64 word"

text \<open>
  Modelled from the spec: the header of the container with its architecture identifier
  (riscv-elf.h is missing).
\<close>

record Elf64_Ehdr =
  e_machine :: "16 word"

text \<open>
  Modelled from the spec: a section header (riscv-elf.h is missing), with the name of the
  section, which \<^verbatim>\<open>elf_shdr_name\<close> returns for its index, the flags, the load address, the
  byte offset in the file and the byte length.
\<close>

record Elf64_Shdr =
  sh_name :: string
  sh_flags :: "64 word"
  sh_addr :: "64 word"
  sh_offset :: "64 word"
  sh_size :: "64 word"

text \<open>
  Modelled from the spec: a symbol-table entry (riscv-elf.h is missing), with its name and its
  address.
\<close>

record Elf64_Sym =
  st_name :: string
  st_value :: "64 word"

text \<open>
  Modelled from the spec: the container \<^verbatim>\<open>elf_file\<close> (riscv-elf-file.h is missing): the
  header, the ordered sections, the ordered symbol table, and \<^verbatim>\<open>offset\<close>, which turns a
  byte offset of the file into a pointer into the buffer that holds the file.
\<close>

record elf_file =
  ehdr :: Elf64_Ehdr
  shdrs :: "Elf64_Shdr list"
  symbols :: "Elf64_Sym list"
  offset :: "64 word \<Rightarrow> riscv_ptr"

text \<open>
  Modelled from the spec: \<^verbatim>\<open>elf_sym_by_addr\<close> (riscv-elf-file.h is missing). A symbol is
  fetched by exact address; among several symbols at one address the first in symbol-table
  order is taken; \<open>None\<close> is the null pointer.
\<close>

definition elf_sym_by_addr :: "elf_file \<Rightarrow> 64 word \<Rightarrow> Elf64_Sym option" where
  "elf_sym_by_addr elf addr = find (\<lambda>sym. st_value sym = addr) (symbols elf)"

text \<open>
  Modelled from the spec: \<^verbatim>\<open>elf_sym_by_name\<close> (riscv-elf-file.h is missing). A symbol is
  fetched by exact name.
\<close>

definition elf_sym_by_name :: "elf_file \<Rightarrow> string \<Rightarrow> Elf64_Sym option" where
  "elf_sym_by_name elf name = find (\<lambda>sym. st_name sym = name) (symbols elf)"

text \<open>
  Modelled from the spec: \<^verbatim>\<open>elf_sym_name\<close> (riscv-elf-file.h is missing), the name of a
  symbol-table entry.
\<close>

definition elf_sym_name :: "elf_file \<Rightarrow> Elf64_Sym \<Rightarrow> string" where
  "elf_sym_name elf sym' = st_name sym'"

subsection \<open>The state of \<^verbatim>\<open>struct riscv_parse_elf\<close>\<close>

record riscv_parse_elf =
  elf :: elf_file
  filename :: string
  branch_labels :: "riscv_ptr \<rightharpoonup> string"
  enable_color :: bool
  elf_header :: bool
  section_headers :: bool
  program_headers :: bool
  symbol_table :: bool
  disassebly :: bool
  help_or_error :: bool

text \<open>
  An entry of the \<^verbatim>\<open>cmdline_option\<close> table: the two spellings, the help text and the
  callback, which writes to the captured parser state.
\<close>

record cmdline_option =
  short_name :: string
  long_name :: string
  help_text :: string
  fn :: "string \<Rightarrow> riscv_parse_elf \<Rightarrow> riscv_parse_elf"

subsection \<open>What the driver takes from outside\<close>

text \<open>
  The macros of riscv-color.h, \<^verbatim>\<open>SHF_EXECINSTR\<close> and \<^verbatim>\<open>EM_RISCV\<close> are not part of the
  source tree; they are parameters, with the leading underscore of the colour macros dropped.
\<close>

record macros =
  COLOR_BEGIN :: string
  COLOR_SEP :: string
  COLOR_END :: string
  COLOR_RESET :: string
  COLOR_BOLD :: string
  COLOR_UNDERSCORE :: string
  COLOR_FG_WHITE :: string
  COLOR_FG_MAGENTA :: string
  COLOR_FG_CYAN :: string
  COLOR_FG_GREEN :: string
  COLOR_FG_YELLOW :: string
  COLOR_BG_BLACK :: string
  SHF_EXECINSTR :: "64 word"
  EM_RISCV :: "16 word"

text \<open>
  The functions the driver calls and does not define are parameters too.
  \<^item> \<open>riscv_decode_instruction\<close> gets the record and the position; it gives the record
    filled in and the position of the next instruction.
  \<^item> \<open>riscv_disasm_instruction\<close> gets the record, the history, the positions, the offset,
    the global pointer, the resolver and the colorizer; it gives the record and the history
    as it leaves them and the text it prints.
  \<^item> \<open>cmdline_process_options\<close> gets the option table and \<open>argv\<close>; it gives the callbacks it
    invoked (index into the table and argument, in order), the text it prints, the remaining
    arguments and the success flag.
  \<^item> \<open>elf_load\<close> gives the loaded container, or the text and exit status of a fatal
    failure.
  \<^item> \<open>isatty_stdout\<close> is the value of \<^verbatim>\<open>isatty(fileno(stdout))\<close>.
  \<^item> \<open>riscv_decode_new\<close> and \<open>elf_file_new\<close> are the default-constructed objects.
\<close>

record externals =
  riscv_decode_new :: riscv_decode
  riscv_decode_instruction :: "riscv_decode \<Rightarrow> riscv_ptr \<Rightarrow> riscv_decode \<times> riscv_ptr"
  riscv_decode_decompress :: "riscv_decode \<Rightarrow> riscv_decode"
  riscv_disasm_instruction ::
    "riscv_decode \<Rightarrow> riscv_decode list \<Rightarrow> riscv_ptr \<Rightarrow> riscv_ptr \<Rightarrow> riscv_ptr \<Rightarrow> riscv_ptr
       \<Rightarrow> (riscv_ptr \<Rightarrow> string option) \<Rightarrow> (string \<Rightarrow> string)
       \<Rightarrow> riscv_decode \<times> riscv_decode list \<times> string"
  isatty_stdout :: bool
  elf_file_new :: elf_file
  elf_load :: "elf_file \<Rightarrow> string \<Rightarrow> (string \<times> nat) + elf_file"
  elf_print_header_info :: "elf_file \<Rightarrow> (string \<Rightarrow> string) \<Rightarrow> string"
  elf_print_section_headers :: "elf_file \<Rightarrow> (string \<Rightarrow> string) \<Rightarrow> string"
  elf_print_program_headers :: "elf_file \<Rightarrow> (string \<Rightarrow> string) \<Rightarrow> string"
  elf_print_symbol_table :: "elf_file \<Rightarrow> (string \<Rightarrow> string) \<Rightarrow> string"
  cmdline_process_options ::
    "cmdline_option list \<Rightarrow> string list \<Rightarrow> (nat \<times> string) list \<times> string \<times> string list \<times> bool"
  cmdline_print_options :: "cmdline_option list \<Rightarrow> string"

subsection \<open>Formatting with \<^verbatim>\<open>printf\<close>\<close>

fun decimal :: "nat \<Rightarrow> string" where
  "decimal n = (if n < 10 then [''0123456789'' ! n]
                else decimal (n div 10) @ [''0123456789'' ! (n mod 10)])"

declare decimal.simps [simp del]

text \<open>\<^verbatim>\<open>%06lu\<close>, \<^verbatim>\<open>%2lu\<close> and \<^verbatim>\<open>%-111s\<close>.\<close>

definition fmt_06lu :: "nat \<Rightarrow> string" where
  "fmt_06lu n = replicate (6 - length (decimal n)) (CHR ''0'') @ decimal n"

definition fmt_2lu :: "nat \<Rightarrow> string" where
  "fmt_2lu n = replicate (2 - length (decimal n)) (CHR '' '') @ decimal n"

definition fmt_left111 :: "string \<Rightarrow> string" where
  "fmt_left111 s = s @ replicate (111 - length s) (CHR '' '')"

definition newline :: string where
  "newline = [CHR 0x0A]"

text \<open>
  \<^verbatim>\<open>snprintf(branch_label, sizeof(branch_label), "LOC_%06lu", branch_num)\<close> into a buffer
  of 32 bytes: at most 31 characters are kept. \<^verbatim>\<open>branch_num\<close> is an \<^verbatim>\<open>ssize_t\<close> printed
  as an unsigned long.
\<close>

definition snprintf_LOC :: "64 word \<Rightarrow> string" where
  "snprintf_LOC branch_num = take 31 (''LOC_'' @ fmt_06lu (unat branch_num))"

subsection \<open>\<^verbatim>\<open>colorize\<close>\<close>

definition colorize :: "macros \<Rightarrow> externals \<Rightarrow> riscv_parse_elf \<Rightarrow> string \<Rightarrow> string" where
  "colorize M X this type' =
     (if \<not> enable_color this \<or> \<not> isatty_stdout X then ''''
      else if type' = ''header'' then
        COLOR_BEGIN M @ COLOR_BOLD M @ COLOR_SEP M @ COLOR_FG_WHITE M @ COLOR_SEP M
          @ COLOR_BG_BLACK M @ COLOR_END M
      else if type' = ''title'' then
        COLOR_BEGIN M @ COLOR_BOLD M @ COLOR_SEP M @ COLOR_FG_WHITE M @ COLOR_SEP M
          @ COLOR_BG_BLACK M @ COLOR_END M
      else if type' = ''legend'' then
        COLOR_BEGIN M @ COLOR_BOLD M @ COLOR_SEP M @ COLOR_FG_MAGENTA M @ COLOR_END M
      else if type' = ''opcode'' then
        COLOR_BEGIN M @ COLOR_BOLD M @ COLOR_SEP M @ COLOR_FG_CYAN M @ COLOR_END M
      else if type' = ''location'' then
        COLOR_BEGIN M @ COLOR_FG_GREEN M @ COLOR_END M
      else if type' = ''address'' then
        COLOR_BEGIN M @ COLOR_FG_YELLOW M @ COLOR_END M
      else if type' = ''symbol'' then
        COLOR_BEGIN M @ COLOR_UNDERSCORE M @ COLOR_END M
      else if type' = ''reset'' then
        COLOR_RESET M
      else '''')"

subsection \<open>\<^verbatim>\<open>symlookup\<close>\<close>

text \<open>
  \<^verbatim>\<open>std::map::find\<close> reads the map; the member function is not \<^verbatim>\<open>const\<close>, so it
  returns the parser state as it leaves it, next to the name (\<open>None\<close> for \<^verbatim>\<open>nullptr\<close>).
\<close>

definition symlookup :: "riscv_parse_elf \<Rightarrow> riscv_ptr \<Rightarrow> string option \<times> riscv_parse_elf" where
  "symlookup this addr =
     (case elf_sym_by_addr (elf this) addr of
        Some sym' \<Rightarrow> (Some (elf_sym_name (elf this) sym'), this)
      | None \<Rightarrow>
          (case branch_labels this addr of
             Some bli \<Rightarrow> (Some bli, this)
           | None \<Rightarrow> (None, this)))"

subsection \<open>\<^verbatim>\<open>scan_branch_labels\<close>\<close>

text \<open>
  The \<^verbatim>\<open>while\<close> loop of the three-argument overload. The loop carries the position, the
  decode record, \<^verbatim>\<open>branch_num\<close> and the label table; \<^verbatim>\<open>branch_labels[addr] = branch_label\<close>
  stores the name whether or not the key is there.
\<close>

partial_function (option) scan_branch_labels_while ::
  "externals \<Rightarrow> riscv_ptr \<Rightarrow> riscv_ptr \<Rightarrow> riscv_ptr \<Rightarrow> riscv_decode \<Rightarrow> 64 word
     \<Rightarrow> (riscv_ptr \<rightharpoonup> string) \<Rightarrow> (riscv_ptr \<rightharpoonup> string) option"
where
  "scan_branch_labels_while X end' pc_offset pc dec branch_num labels =
     (if pc < end' then
        (case riscv_decode_instruction X dec pc of (dec1, next_pc) \<Rightarrow>
           let dec2 = riscv_decode_decompress X dec1 in
           (case type dec2 of
              riscv_inst_type_sb \<Rightarrow>
                scan_branch_labels_while X end' pc_offset next_pc dec2 (branch_num + 1)
                  (labels(pc - pc_offset + imm dec2 \<mapsto> snprintf_LOC branch_num))
            | riscv_inst_type_uj \<Rightarrow>
                scan_branch_labels_while X end' pc_offset next_pc dec2 (branch_num + 1)
                  (labels(pc - pc_offset + imm dec2 \<mapsto> snprintf_LOC branch_num))
            | riscv_inst_type_other \<Rightarrow>
                scan_branch_labels_while X end' pc_offset next_pc dec2 branch_num labels))
      else Some labels)"

declare scan_branch_labels_while.simps [code]

definition scan_branch_labels_range ::
  "externals \<Rightarrow> riscv_parse_elf \<Rightarrow> riscv_ptr \<Rightarrow> riscv_ptr \<Rightarrow> riscv_ptr \<Rightarrow> riscv_parse_elf option"
where
  "scan_branch_labels_range X this start end' pc_offset =
     map_option (\<lambda>labels. this\<lparr>branch_labels := labels\<rparr>)
       (scan_branch_labels_while X end' pc_offset start (riscv_decode_new X) 1
          (branch_labels this))"

text \<open>The \<^verbatim>\<open>for\<close> loop over the section headers, from the header it has reached.\<close>

fun scan_branch_labels_for ::
  "macros \<Rightarrow> externals \<Rightarrow> Elf64_Shdr list \<Rightarrow> riscv_parse_elf \<Rightarrow> riscv_parse_elf option"
where
  "scan_branch_labels_for M X [] this = Some this"
| "scan_branch_labels_for M X (shdr # rest) this =
     (if sh_flags shdr AND SHF_EXECINSTR M \<noteq> 0 then
        (case scan_branch_labels_range X this
                (offset (elf this) (sh_offset shdr))
                (offset (elf this) (sh_offset shdr) + sh_size shdr)
                (offset (elf this) (sh_offset shdr) - sh_addr shdr) of
           None \<Rightarrow> None
         | Some this' \<Rightarrow> scan_branch_labels_for M X rest this')
      else scan_branch_labels_for M X rest this)"

definition scan_branch_labels :: "macros \<Rightarrow> externals \<Rightarrow> riscv_parse_elf \<Rightarrow> riscv_parse_elf option"
where
  "scan_branch_labels M X this =
     scan_branch_labels_for M X (shdrs (elf this)) (this\<lparr>branch_labels := Map.empty\<rparr>)"

subsection \<open>\<^verbatim>\<open>print_disassembly\<close>\<close>

text \<open>
  The \<^verbatim>\<open>while\<close> loop of the four-argument overload; \<open>out\<close> is standard output. The
  resolver and the colorizer are bound to the parser state.
\<close>

partial_function (option) print_disassembly_while ::
  "macros \<Rightarrow> externals \<Rightarrow> riscv_parse_elf \<Rightarrow> riscv_ptr \<Rightarrow> riscv_ptr \<Rightarrow> riscv_ptr \<Rightarrow> riscv_ptr
     \<Rightarrow> riscv_decode \<Rightarrow> riscv_decode list \<Rightarrow> string \<Rightarrow> string option"
where
  "print_disassembly_while M X this end' pc_offset gp pc dec dec_hist out =
     (if pc < end' then
        (case riscv_decode_instruction X dec pc of (dec1, next_pc) \<Rightarrow>
           (case riscv_disasm_instruction X dec1 dec_hist pc next_pc pc_offset gp
                   (\<lambda>addr. fst (symlookup this addr)) (colorize M X this) of
              (dec2, dec_hist2, printed) \<Rightarrow>
                print_disassembly_while M X this end' pc_offset gp next_pc dec2 dec_hist2
                  (out @ printed)))
      else Some out)"

declare print_disassembly_while.simps [code]

definition print_disassembly_range ::
  "macros \<Rightarrow> externals \<Rightarrow> riscv_parse_elf \<Rightarrow> riscv_ptr \<Rightarrow> riscv_ptr \<Rightarrow> riscv_ptr \<Rightarrow> riscv_ptr
     \<Rightarrow> string \<Rightarrow> string option"
where
  "print_disassembly_range M X this start end' pc_offset gp out =
     print_disassembly_while M X this end' pc_offset gp start (riscv_decode_new X) [] out"

definition section_title :: "macros \<Rightarrow> externals \<Rightarrow> riscv_parse_elf \<Rightarrow> nat \<Rightarrow> string \<Rightarrow> string" where
  "section_title M X this i name =
     colorize M X this ''title'' @ ''Section['' @ fmt_2lu i @ ''] '' @ fmt_left111 name
       @ colorize M X this ''reset'' @ newline"

text \<open>
  The \<^verbatim>\<open>for\<close> loop over the section headers, from index \<open>i\<close>; the list holds the
  headers from \<open>i\<close> on, so the header read as \<^verbatim>\<open>elf.shdrs[i]\<close> is its head, and
  \<^verbatim>\<open>elf_shdr_name(elf, i)\<close> is the name in it.
\<close>

fun print_disassembly_for ::
  "macros \<Rightarrow> externals \<Rightarrow> riscv_parse_elf \<Rightarrow> Elf64_Sym option \<Rightarrow> nat \<Rightarrow> Elf64_Shdr list
     \<Rightarrow> string \<Rightarrow> string option"
where
  "print_disassembly_for M X this gp_sym i [] out = Some out"
| "print_disassembly_for M X this gp_sym i (shdr # rest) out =
     (if sh_flags shdr AND SHF_EXECINSTR M \<noteq> 0 then
        (case print_disassembly_range M X this
                (offset (elf this) (sh_offset shdr))
                (offset (elf this) (sh_offset shdr) + sh_size shdr)
                (offset (elf this) (sh_offset shdr) - sh_addr shdr)
                (case gp_sym of Some sym' \<Rightarrow> st_value sym' | None \<Rightarrow> 0)
                (out @ section_title M X this i (sh_name shdr)) of
           None \<Rightarrow> None
         | Some out' \<Rightarrow> print_disassembly_for M X this gp_sym (i + 1) rest out')
      else print_disassembly_for M X this gp_sym (i + 1) rest out)"

definition print_disassembly :: "macros \<Rightarrow> externals \<Rightarrow> riscv_parse_elf \<Rightarrow> string \<Rightarrow> string option"
where
  "print_disassembly M X this out =
     print_disassembly_for M X this (elf_sym_by_name (elf this) ''_gp'') 0 (shdrs (elf this)) out"

subsection \<open>\<^verbatim>\<open>parse_commandline\<close>\<close>

text \<open>The option table; each callback sets the flags its lambda assigns.\<close>

definition options :: "cmdline_option list" where
  "options =
     [\<lparr>short_name = ''-c'', long_name = ''--color'', help_text = ''Enable Color'',
        fn = (\<lambda>s this. this\<lparr>enable_color := True\<rparr>)\<rparr>,
      \<lparr>short_name = ''-e'', long_name = ''--print-elf-header'', help_text = ''Print ELF header'',
        fn = (\<lambda>s this. this\<lparr>elf_header := True\<rparr>)\<rparr>,
      \<lparr>short_name = ''-s'', long_name = ''--print-section-headers'',
        help_text = ''Print Section headers'',
        fn = (\<lambda>s this. this\<lparr>section_headers := True\<rparr>)\<rparr>,
      \<lparr>short_name = ''-p'', long_name = ''--print-program-headers'',
        help_text = ''Print Program headers'',
        fn = (\<lambda>s this. this\<lparr>program_headers := True\<rparr>)\<rparr>,
      \<lparr>short_name = ''-t'', long_name = ''--print-symbol-table'',
        help_text = ''Print Symbol Table'',
        fn = (\<lambda>s this. this\<lparr>symbol_table := True\<rparr>)\<rparr>,
      \<lparr>short_name = ''-d'', long_name = ''--print-disassembly'',
        help_text = ''Print Disassembly'',
        fn = (\<lambda>s this. this\<lparr>disassebly := True\<rparr>)\<rparr>,
      \<lparr>short_name = ''-a'', long_name = ''--print-all'', help_text = ''Print All'',
        fn = (\<lambda>s this. this\<lparr>disassebly := True, symbol_table := True, program_headers := True,
                               section_headers := True, elf_header := True\<rparr>)\<rparr>,
      \<lparr>short_name = ''-h'', long_name = ''--help'', help_text = ''Show help'',
        fn = (\<lambda>s this. this\<lparr>help_or_error := True\<rparr>)\<rparr>]"

text \<open>The callbacks \<^verbatim>\<open>process_options\<close> invoked, applied in order.\<close>

definition invoke :: "nat \<times> string \<Rightarrow> riscv_parse_elf \<Rightarrow> riscv_parse_elf" where
  "invoke c this = (if fst c < length options then fn (options ! fst c) (snd c) this else this)"

text \<open>
  \<open>argv0\<close> is \<^verbatim>\<open>argv[0]\<close> and \<open>args\<close> the arguments after it. The result is \<open>Inl\<close> with the
  text printed and the status when the function calls \<^verbatim>\<open>exit\<close>, and \<open>Inr\<close> with the parser
  state and the text printed when it returns.
\<close>

definition parse_commandline ::
  "externals \<Rightarrow> riscv_parse_elf \<Rightarrow> string \<Rightarrow> string list
     \<Rightarrow> (string \<times> nat) + (riscv_parse_elf \<times> string)"
where
  "parse_commandline X this argv0 args =
     (case cmdline_process_options X options (argv0 # args) of
        (calls, printed, first, second) \<Rightarrow>
          let this1 = fold invoke calls this;
              this2 = (if \<not> second then this1\<lparr>help_or_error := True\<rparr>
                       else if length first \<noteq> 1 then this1\<lparr>help_or_error := True\<rparr>
                       else this1);
              out2 = (if \<not> second then printed
                      else if length first \<noteq> 1 then
                        printed @ argv0 @ '': wrong number of arguments'' @ newline
                      else printed);
              this3 = this2\<lparr>help_or_error :=
                        help_or_error this2 \<or>
                        (\<not> elf_header this2 \<and> \<not> section_headers this2 \<and>
                         \<not> program_headers this2 \<and> \<not> symbol_table this2 \<and> \<not> disassebly this2)\<rparr>
          in if help_or_error this3 then
               Inl (out2 @ ''usage: '' @ argv0 @ '' [<options>] <elf_file>'' @ newline
                      @ cmdline_print_options X options, 9)
             else Inr (this3\<lparr>filename := first ! 0\<rparr>, out2))"

subsection \<open>\<^verbatim>\<open>print_heading\<close>, \<^verbatim>\<open>run\<close> and \<^verbatim>\<open>main\<close>\<close>

text \<open>The loop bound \<^verbatim>\<open>116 - heading.length()\<close> is computed in \<^verbatim>\<open>size_t\<close>.\<close>

definition print_heading :: "macros \<Rightarrow> externals \<Rightarrow> riscv_parse_elf \<Rightarrow> string \<Rightarrow> string" where
  "print_heading M X this heading =
     newline @ colorize M X this ''header'' @ ''---[ '' @ heading @ '' ]''
       @ replicate (unat ((116 :: 64 word) - word_of_nat (length heading))) (CHR ''-'')
       @ colorize M X this ''reset'' @ newline @ newline"

text \<open>What \<^verbatim>\<open>run\<close> prints for the four header sections, in the order of the source.\<close>

definition print_sections :: "macros \<Rightarrow> externals \<Rightarrow> riscv_parse_elf \<Rightarrow> string" where
  "print_sections M X this =
     (if elf_header this then
        print_heading M X this ''ELF Header''
          @ elf_print_header_info X (elf this) (colorize M X this)
      else [])
     @ (if section_headers this then
          print_heading M X this ''Section Headers''
            @ elf_print_section_headers X (elf this) (colorize M X this)
        else [])
     @ (if program_headers this then
          print_heading M X this ''Program Headers''
            @ elf_print_program_headers X (elf this) (colorize M X this)
        else [])
     @ (if symbol_table this then
          print_heading M X this ''Symbol Table''
            @ elf_print_symbol_table X (elf this) (colorize M X this)
        else [])"

text \<open>
  \<open>None\<close>: a walk never returns. \<open>Some (Inl e)\<close>: the load failed with text and status
  \<open>e\<close>. \<open>Some (Inr (this', out))\<close>: \<^verbatim>\<open>run\<close> returned, leaving the state \<open>this'\<close>, having
  printed \<open>out\<close>.
\<close>

definition run ::
  "macros \<Rightarrow> externals \<Rightarrow> riscv_parse_elf \<Rightarrow> ((string \<times> nat) + (riscv_parse_elf \<times> string)) option"
where
  "run M X this =
     (case elf_load X (elf this) (filename this) of
        Inl e \<Rightarrow> Some (Inl e)
      | Inr loaded \<Rightarrow>
          let this1 = this\<lparr>elf := loaded\<rparr>;
              out1 = print_sections M X this1
          in if disassebly this1 \<and> e_machine (ehdr (elf this1)) = EM_RISCV M then
               (case scan_branch_labels M X this1 of
                  None \<Rightarrow> None
                | Some this2 \<Rightarrow>
                    (case print_disassembly M X this2
                            (out1 @ print_heading M X this1 ''Disassembly'') of
                       None \<Rightarrow> None
                     | Some out2 \<Rightarrow> Some (Inr (this2, out2 @ newline))))
             else Some (Inr (this1, out1 @ newline)))"

definition elf_parser_new :: "externals \<Rightarrow> riscv_parse_elf" where
  "elf_parser_new X =
     \<lparr>elf = elf_file_new X, filename = [], branch_labels = Map.empty, enable_color = False,
      elf_header = False, section_headers = False, program_headers = False,
      symbol_table = False, disassebly = False, help_or_error = False\<rparr>"

text \<open>The text on standard output and the exit status; \<open>None\<close> when \<^verbatim>\<open>main\<close> never returns.\<close>

definition main :: "macros \<Rightarrow> externals \<Rightarrow> string \<Rightarrow> string list \<Rightarrow> (string \<times> nat) option" where
  "main M X argv0 args =
     (case parse_commandline X (elf_parser_new X) argv0 args of
        Inl (out, status) \<Rightarrow> Some (out, status)
      | Inr (elf_parser, out) \<Rightarrow>
          (case run M X elf_parser of
             None \<Rightarrow> None
           | Some (Inl (failure, status)) \<Rightarrow> Some (out @ failure, status)
           | Some (Inr (elf_parser', out')) \<Rightarrow> Some (out @ out', 0)))"

subsection \<open>The positions a scan decodes\<close>

text \<open>
  The states (position, decode record) at the head of the \<^verbatim>\<open>while\<close> loop of the scan, from a
  starting state on: the loop goes from a state below \<open>end'\<close> to the position the decoder
  returns, with the record decoded and decompressed.
\<close>

inductive scan_reaches ::
  "externals \<Rightarrow> riscv_ptr \<Rightarrow> riscv_ptr \<times> riscv_decode \<Rightarrow> riscv_ptr \<times> riscv_decode \<Rightarrow> bool"
  for X :: externals and end' :: riscv_ptr and s :: "riscv_ptr \<times> riscv_decode"
where
  scan_reaches_start: "scan_reaches X end' s s"
| scan_reaches_next:
    "scan_reaches X end' s (pc, dec) \<Longrightarrow> pc < end' \<Longrightarrow>
     riscv_decode_instruction X dec pc = (dec1, next_pc) \<Longrightarrow>
     scan_reaches X end' s (next_pc, riscv_decode_decompress X dec1)"

text \<open>
  The addresses the scan stores from a state on: for each conditional branch and each
  unconditional jump the loop decodes, the address of line 94.
\<close>

definition scan_targets ::
  "externals \<Rightarrow> riscv_ptr \<Rightarrow> riscv_ptr \<Rightarrow> riscv_ptr \<times> riscv_decode \<Rightarrow> riscv_ptr set"
where
  "scan_targets X end' pc_offset s =
     {addr. \<exists>pc dec dec1 next_pc.
        scan_reaches X end' s (pc, dec) \<and> pc < end' \<and>
        riscv_decode_instruction X dec pc = (dec1, next_pc) \<and>
        (type (riscv_decode_decompress X dec1) = riscv_inst_type_sb \<or>
         type (riscv_decode_decompress X dec1) = riscv_inst_type_uj) \<and>
        addr = pc - pc_offset + imm (riscv_decode_decompress X dec1)}"

subsection \<open>The two phases of the disassembly, in the words of the spec\<close>

text \<open>
  The executable regions: the section headers with the executable flag, each with its index.
\<close>

definition exec_regions :: "macros \<Rightarrow> nat \<Rightarrow> Elf64_Shdr list \<Rightarrow> (nat \<times> Elf64_Shdr) list" where
  "exec_regions M i hdrs =
     filter (\<lambda>r. sh_flags (snd r) AND SHF_EXECINSTR M \<noteq> 0) (enumerate i hdrs)"

text \<open>
  Phase one runs the Label Scanner once over every executable region, each region continuing
  with the table the one before it left.
\<close>

fun scan_phase ::
  "externals \<Rightarrow> (nat \<times> Elf64_Shdr) list \<Rightarrow> riscv_parse_elf \<Rightarrow> riscv_parse_elf option"
where
  "scan_phase X [] this = Some this"
| "scan_phase X (r # regions) this =
     (case scan_branch_labels_range X this
             (offset (elf this) (sh_offset (snd r)))
             (offset (elf this) (sh_offset (snd r)) + sh_size (snd r))
             (offset (elf this) (sh_offset (snd r)) - sh_addr (snd r)) of
        None \<Rightarrow> None
      | Some this' \<Rightarrow> scan_phase X regions this')"

text \<open>
  Phase two runs the Printer once over every executable region; every region is printed
  against the one parser state \<open>this\<close>, and so against the one Label Table in it. The text
  of a region is its title line and then what its walk prints.
\<close>

fun print_phase ::
  "macros \<Rightarrow> externals \<Rightarrow> riscv_parse_elf \<Rightarrow> riscv_ptr \<Rightarrow> (nat \<times> Elf64_Shdr) list \<Rightarrow> string option"
where
  "print_phase M X this gp [] = Some []"
| "print_phase M X this gp (r # regions) =
     (case print_disassembly_range M X this
             (offset (elf this) (sh_offset (snd r)))
             (offset (elf this) (sh_offset (snd r)) + sh_size (snd r))
             (offset (elf this) (sh_offset (snd r)) - sh_addr (snd r)) gp [] of
        None \<Rightarrow> None
      | Some printed \<Rightarrow>
          (case print_phase M X this gp regions of
             None \<Rightarrow> None
           | Some rest \<Rightarrow> Some (section_title M X this (fst r) (sh_name (snd r)) @ printed @ rest)))"

definition gp_value :: "elf_file \<Rightarrow> riscv_ptr" where
  "gp_value e = (case elf_sym_by_name e ''_gp'' of Some sym' \<Rightarrow> st_value sym' | None \<Rightarrow> 0)"

subsection \<open>A small container and decoder to run the driver on\<close>

text \<open>
  One executable section of three instructions, loaded at address 1000 and held in the buffer
  at pointer 100: a jump from 1000 to 1008, a jump from 1004 to 1008 and a branch from 1008
  back to 1000, where the symbol \<open>_start\<close> is. A second section is not executable.
\<close>

definition demo_macros :: macros where
  "demo_macros =
     \<lparr>COLOR_BEGIN = [CHR 0x1B, CHR ''[''], COLOR_SEP = '';'', COLOR_END = ''m'',
      COLOR_RESET = [CHR 0x1B, CHR ''['', CHR ''m''], COLOR_BOLD = ''1'',
      COLOR_UNDERSCORE = ''4'', COLOR_FG_WHITE = ''37'', COLOR_FG_MAGENTA = ''35'',
      COLOR_FG_CYAN = ''36'', COLOR_FG_GREEN = ''32'', COLOR_FG_YELLOW = ''33'',
      COLOR_BG_BLACK = ''40'', SHF_EXECINSTR = 4, EM_RISCV = 243\<rparr>"

definition demo_elf :: elf_file where
  "demo_elf =
     \<lparr>ehdr = \<lparr>e_machine = 243\<rparr>,
      shdrs = [\<lparr>sh_name = ''.text'', sh_flags = 6, sh_addr = 1000, sh_offset = 0, sh_size = 12\<rparr>,
               \<lparr>sh_name = ''.data'', sh_flags = 3, sh_addr = 2000, sh_offset = 12, sh_size = 8\<rparr>],
      symbols = [\<lparr>st_name = ''_start'', st_value = 1000\<rparr>],
      offset = (\<lambda>off. 100 + off)\<rparr>"

definition demo_decode :: "riscv_decode \<Rightarrow> riscv_ptr \<Rightarrow> riscv_decode \<times> riscv_ptr" where
  "demo_decode dec pc =
     (if pc = 100 then \<lparr>type = riscv_inst_type_uj, imm = 8\<rparr>
      else if pc = 104 then \<lparr>type = riscv_inst_type_uj, imm = 4\<rparr>
      else if pc = 108 then \<lparr>type = riscv_inst_type_sb, imm = - 8\<rparr>
      else \<lparr>type = riscv_inst_type_other, imm = 0\<rparr>,
      pc + 4)"

definition demo_disasm ::
  "riscv_decode \<Rightarrow> riscv_decode list \<Rightarrow> riscv_ptr \<Rightarrow> riscv_ptr \<Rightarrow> riscv_ptr \<Rightarrow> riscv_ptr
     \<Rightarrow> (riscv_ptr \<Rightarrow> string option) \<Rightarrow> (string \<Rightarrow> string)
     \<Rightarrow> riscv_decode \<times> riscv_decode list \<times> string"
where
  "demo_disasm dec dec_hist pc next_pc pc_offset gp lookup color =
     (dec, dec # dec_hist,
      (case lookup (pc - pc_offset) of Some name \<Rightarrow> name | None \<Rightarrow> ''-'') @ '' ''
        @ (case lookup (pc - pc_offset + imm dec) of Some name \<Rightarrow> name | None \<Rightarrow> ''-'')
        @ newline)"

text \<open>
  The demo option parser takes every argument for the file path, except \<open>-d\<close>, which it
  takes for the disassembly option (index 5 of the table).
\<close>

definition demo_process_options ::
  "cmdline_option list \<Rightarrow> string list \<Rightarrow> (nat \<times> string) list \<times> string \<times> string list \<times> bool"
where
  "demo_process_options opts argv =
     (map (\<lambda>a. (5, [])) (filter (\<lambda>a. a = ''-d'') (tl argv)), [],
      filter (\<lambda>a. a \<noteq> ''-d'') (tl argv), True)"

definition demo :: externals where
  "demo =
     \<lparr>riscv_decode_new = \<lparr>type = riscv_inst_type_other, imm = 0\<rparr>,
      riscv_decode_instruction = demo_decode,
      riscv_decode_decompress = (\<lambda>dec. dec),
      riscv_disasm_instruction = demo_disasm,
      isatty_stdout = True,
      elf_file_new = \<lparr>ehdr = \<lparr>e_machine = 0\<rparr>, shdrs = [], symbols = [], offset = (\<lambda>off. off)\<rparr>,
      elf_load = (\<lambda>e name. Inr demo_elf),
      elf_print_header_info = (\<lambda>e color. ''header info'' @ newline),
      elf_print_section_headers = (\<lambda>e color. ''section headers'' @ newline),
      elf_print_program_headers = (\<lambda>e color. ''program headers'' @ newline),
      elf_print_symbol_table = (\<lambda>e color. ''symbols'' @ newline),
      cmdline_process_options = demo_process_options,
      cmdline_print_options = (\<lambda>opts. concat (map (\<lambda>opt. short_name opt @ newline) opts))\<rparr>"

text \<open>The same, with a decoder that returns the position it was given.\<close>

definition demo_stuck :: externals where
  "demo_stuck = demo\<lparr>riscv_decode_instruction := (\<lambda>dec pc. (dec, pc))\<rparr>"

text \<open>The parser state after \<open>-d file\<close> and the load of the demo container.\<close>

definition demo_parser :: riscv_parse_elf where
  "demo_parser =
     \<lparr>elf = demo_elf, filename = ''a.out'', branch_labels = Map.empty, enable_color = False,
      elf_header = False, section_headers = False, program_headers = False,
      symbol_table = False, disassebly = True, help_or_error = False\<rparr>"

text \<open>
  The same three instructions in two executable sections, the later instruction first: the
  branch at address 1008 is section 0, the two jumps at 1000 and 1004 are section 1. The
  branch targets section 1 and the jumps target section 0. There is no symbol.
\<close>

definition demo_elf2 :: elf_file where
  "demo_elf2 =
     \<lparr>ehdr = \<lparr>e_machine = 243\<rparr>,
      shdrs = [\<lparr>sh_name = ''.init'', sh_flags = 6, sh_addr = 1008, sh_offset = 8, sh_size = 4\<rparr>,
               \<lparr>sh_name = ''.text'', sh_flags = 6, sh_addr = 1000, sh_offset = 0, sh_size = 8\<rparr>],
      symbols = [],
      offset = (\<lambda>off. 100 + off)\<rparr>"


text \<open>The demo externals with a loader that gives each of these containers.\<close>

definition demo2 :: externals where
  "demo2 = demo\<lparr>elf_load := (\<lambda>e name. Inr demo_elf2)\<rparr>"


section \<open>Properties\<close>

subsection \<open>Facts about the two walks\<close>

lemma snprintf_LOC_1: "snprintf_LOC 1 = ''LOC_000001''"
  by code_simp

lemma snprintf_LOC_2: "snprintf_LOC 2 = ''LOC_000002''"
  by code_simp

lemma snprintf_LOC_3: "snprintf_LOC 3 = ''LOC_000003''"
  by code_simp

lemma target_uint:
  "uint (pc - pc_offset + i :: 64 word) = (uint pc - uint pc_offset + sint i) mod 2 ^ 64"
proof -
  have "pc - pc_offset + i = word_of_int (uint pc - uint pc_offset + sint i)"
    by simp
  then show ?thesis
    by (simp only: uint_word_of_int) simp
qed

text \<open>One turn of the scan loop on a branch or a jump.\<close>

lemma scan_while_branch:
  assumes "pc < end'"
    and "riscv_decode_instruction X dec pc = (dec1, next_pc)"
    and "type (riscv_decode_decompress X dec1) = riscv_inst_type_sb \<or>
         type (riscv_decode_decompress X dec1) = riscv_inst_type_uj"
  shows "scan_branch_labels_while X end' pc_offset pc dec branch_num labels =
         scan_branch_labels_while X end' pc_offset next_pc (riscv_decode_decompress X dec1)
           (branch_num + 1)
           (labels(pc - pc_offset + imm (riscv_decode_decompress X dec1)
              \<mapsto> snprintf_LOC branch_num))"
  using assms by (subst scan_branch_labels_while.simps) (auto simp: Let_def)

text \<open>The states the loop reaches from a state, taken apart at its first turn.\<close>

lemma scan_reaches_stop:
  assumes "scan_reaches X end' s s'" and "\<not> fst s < end'"
  shows "s' = s"
  using assms
proof (induction rule: scan_reaches.induct)
  case scan_reaches_start
  show ?case by simp
next
  case (scan_reaches_next pc dec dec1 next_pc)
  then show ?case by auto
qed

lemma scan_reaches_front:
  assumes "scan_reaches X end' (next_pc, riscv_decode_decompress X dec1) s'"
    and "pc < end'"
    and "riscv_decode_instruction X dec pc = (dec1, next_pc)"
  shows "scan_reaches X end' (pc, dec) s'"
  using assms(1)
proof (induction rule: scan_reaches.induct)
  case scan_reaches_start
  show ?case
    by (rule scan_reaches.scan_reaches_next [OF scan_reaches.scan_reaches_start assms(2,3)])
next
  case (scan_reaches_next pc' dec' dec1' next_pc')
  from scan_reaches_next.IH scan_reaches_next.hyps(2,3) show ?case
    by (rule scan_reaches.scan_reaches_next)
qed

lemma scan_reaches_cases:
  assumes "scan_reaches X end' (pc, dec) s'"
    and "riscv_decode_instruction X dec pc = (dec1, next_pc)"
  shows "s' = (pc, dec) \<or> scan_reaches X end' (next_pc, riscv_decode_decompress X dec1) s'"
  using assms(1)
proof (induction rule: scan_reaches.induct)
  case scan_reaches_start
  show ?case by simp
next
  case (scan_reaches_next pc' dec' dec1' next_pc')
  from scan_reaches_next.IH show ?case
  proof
    assume "(pc', dec') = (pc, dec)"
    with scan_reaches_next.hyps(3) assms(2) have "next_pc' = next_pc" and "dec1' = dec1"
      by simp_all
    then show ?thesis
      by (simp add: scan_reaches.scan_reaches_start)
  next
    assume "scan_reaches X end' (next_pc, riscv_decode_decompress X dec1) (pc', dec')"
    from this scan_reaches_next.hyps(2,3)
    have "scan_reaches X end' (next_pc, riscv_decode_decompress X dec1)
            (next_pc', riscv_decode_decompress X dec1')"
      by (rule scan_reaches.scan_reaches_next)
    then show ?thesis by simp
  qed
qed

lemma scan_targets_stop:
  assumes "\<not> pc < end'"
  shows "scan_targets X end' pc_offset (pc, dec) = {}"
proof -
  have "\<not> (scan_reaches X end' (pc, dec) (pc', dec') \<and> pc' < end')" for pc' dec'
    using scan_reaches_stop [of X end' "(pc, dec)" "(pc', dec')"] assms by auto
  then show ?thesis
    by (auto simp: scan_targets_def)
qed

lemma scan_targets_step:
  assumes "pc < end'"
    and "riscv_decode_instruction X dec pc = (dec1, next_pc)"
  shows "scan_targets X end' pc_offset (pc, dec) =
         (if type (riscv_decode_decompress X dec1) = riscv_inst_type_sb \<or>
             type (riscv_decode_decompress X dec1) = riscv_inst_type_uj
          then {pc - pc_offset + imm (riscv_decode_decompress X dec1)} else {})
         \<union> scan_targets X end' pc_offset (next_pc, riscv_decode_decompress X dec1)"
    (is "?L = ?H \<union> ?R")
proof (intro set_eqI iffI)
  fix addr
  assume "addr \<in> ?L"
  then obtain pc' dec' dec1' next_pc' where
    r: "scan_reaches X end' (pc, dec) (pc', dec')"
    and rest: "pc' < end'" "riscv_decode_instruction X dec' pc' = (dec1', next_pc')"
      "type (riscv_decode_decompress X dec1') = riscv_inst_type_sb \<or>
       type (riscv_decode_decompress X dec1') = riscv_inst_type_uj"
      "addr = pc' - pc_offset + imm (riscv_decode_decompress X dec1')"
    by (auto simp: scan_targets_def)
  from scan_reaches_cases [OF r assms(2)] show "addr \<in> ?H \<union> ?R"
  proof
    assume "(pc', dec') = (pc, dec)"
    with rest assms(2) have "addr \<in> ?H"
      by auto
    then show ?thesis by simp
  next
    assume "scan_reaches X end' (next_pc, riscv_decode_decompress X dec1) (pc', dec')"
    with rest have "addr \<in> ?R"
      unfolding scan_targets_def by blast
    then show ?thesis by simp
  qed
next
  fix addr
  assume "addr \<in> ?H \<union> ?R"
  then show "addr \<in> ?L"
  proof
    assume "addr \<in> ?H"
    then have "type (riscv_decode_decompress X dec1) = riscv_inst_type_sb \<or>
        type (riscv_decode_decompress X dec1) = riscv_inst_type_uj"
      and "addr = pc - pc_offset + imm (riscv_decode_decompress X dec1)"
      by (auto split: if_splits)
    with scan_reaches.scan_reaches_start [of X end' "(pc, dec)"] assms show ?thesis
      unfolding scan_targets_def by blast
  next
    assume "addr \<in> ?R"
    then obtain pc' dec' dec1' next_pc' where
      r: "scan_reaches X end' (next_pc, riscv_decode_decompress X dec1) (pc', dec')"
      and rest: "pc' < end'" "riscv_decode_instruction X dec' pc' = (dec1', next_pc')"
        "type (riscv_decode_decompress X dec1') = riscv_inst_type_sb \<or>
         type (riscv_decode_decompress X dec1') = riscv_inst_type_uj"
        "addr = pc' - pc_offset + imm (riscv_decode_decompress X dec1')"
      by (auto simp: scan_targets_def)
    from scan_reaches_front [OF r assms] rest show ?thesis
      unfolding scan_targets_def by blast
  qed
qed

text \<open>The keys of the table a scan returns: those it started with and those it stored.\<close>

lemma scan_while_dom:
  assumes "scan_branch_labels_while X end' pc_offset pc dec branch_num labels = Some T"
  shows "dom T = dom labels \<union> scan_targets X end' pc_offset (pc, dec)"
proof (rule scan_branch_labels_while.raw_induct
    [where P = "\<lambda>X end' pc_offset pc dec branch_num labels T.
       dom T = dom labels \<union> scan_targets X end' pc_offset (pc, dec)",
     OF _ assms], goal_cases)
  case (1 scan X end' pc_offset pc dec branch_num labels T)
  show ?case
  proof (cases "pc < end'")
    case False
    with 1(2) show ?thesis
      by (simp add: scan_targets_stop)
  next
    case True
    obtain dec1 next_pc where d: "riscv_decode_instruction X dec pc = (dec1, next_pc)"
      by (cases "riscv_decode_instruction X dec pc")
    note step = scan_targets_step [OF True d, of pc_offset]
    show ?thesis
    proof (cases "type (riscv_decode_decompress X dec1)")
      case riscv_inst_type_sb
      with 1(2) True d have "scan X end' pc_offset next_pc (riscv_decode_decompress X dec1)
          (branch_num + 1) (labels(pc - pc_offset + imm (riscv_decode_decompress X dec1)
             \<mapsto> snprintf_LOC branch_num)) = Some T"
        by (simp add: Let_def)
      from 1(1) [OF this] riscv_inst_type_sb show ?thesis
        by (simp add: step)
    next
      case riscv_inst_type_uj
      with 1(2) True d have "scan X end' pc_offset next_pc (riscv_decode_decompress X dec1)
          (branch_num + 1) (labels(pc - pc_offset + imm (riscv_decode_decompress X dec1)
             \<mapsto> snprintf_LOC branch_num)) = Some T"
        by (simp add: Let_def)
      from 1(1) [OF this] riscv_inst_type_uj show ?thesis
        by (simp add: step)
    next
      case riscv_inst_type_other
      with 1(2) True d have "scan X end' pc_offset next_pc (riscv_decode_decompress X dec1)
          branch_num labels = Some T"
        by (simp add: Let_def)
      from 1(1) [OF this] riscv_inst_type_other show ?thesis
        by (simp add: step)
    qed
  qed
qed

text \<open>Both loops return when the decoder moves the position forward.\<close>

lemma scan_while_returns:
  assumes prog: "\<forall>dec pc. pc < end' \<longrightarrow> pc < snd (riscv_decode_instruction X dec pc)"
  shows "\<exists>T. scan_branch_labels_while X end' pc_offset pc dec branch_num labels = Some T"
proof (induction "unat end' - unat pc" arbitrary: pc dec branch_num labels rule: less_induct)
  case less
  show ?case
  proof (cases "pc < end'")
    case False
    then show ?thesis by (subst scan_branch_labels_while.simps) simp
  next
    case True
    obtain dec1 next_pc where d: "riscv_decode_instruction X dec pc = (dec1, next_pc)"
      by (cases "riscv_decode_instruction X dec pc")
    from prog True have "pc < snd (riscv_decode_instruction X dec pc)" by blast
    with d have "pc < next_pc" by simp
    with True have m: "unat end' - unat next_pc < unat end' - unat pc"
      by (simp add: word_less_nat_alt)
    show ?thesis
      by (subst scan_branch_labels_while.simps)
         (simp add: True d Let_def less [OF m] split: riscv_inst_type.split)
  qed
qed

lemma print_while_returns:
  assumes prog: "\<forall>dec pc. pc < end' \<longrightarrow> pc < snd (riscv_decode_instruction X dec pc)"
  shows "\<exists>out'. print_disassembly_while M X this end' pc_offset gp pc dec dec_hist out = Some out'"
proof (induction "unat end' - unat pc" arbitrary: pc dec dec_hist out rule: less_induct)
  case less
  show ?case
  proof (cases "pc < end'")
    case False
    then show ?thesis by (subst print_disassembly_while.simps) simp
  next
    case True
    obtain dec1 next_pc where d: "riscv_decode_instruction X dec pc = (dec1, next_pc)"
      by (cases "riscv_decode_instruction X dec pc")
    from prog True have "pc < snd (riscv_decode_instruction X dec pc)" by blast
    with d have "pc < next_pc" by simp
    with True have m: "unat end' - unat next_pc < unat end' - unat pc"
      by (simp add: word_less_nat_alt)
    show ?thesis
      by (subst print_disassembly_while.simps)
         (simp add: True d less [OF m] split: prod.split)
  qed
qed

text \<open>
  Neither loop returns from a position below the end at which the decoder, whatever the
  record, gives back the position it was given.
\<close>

lemma scan_while_stuck:
  assumes "scan_branch_labels_while X end' pc_offset pc dec branch_num labels = Some T"
  shows "\<not> (pc < end' \<and> (\<forall>d. snd (riscv_decode_instruction X d pc) = pc))"
proof (rule scan_branch_labels_while.raw_induct
    [where P = "\<lambda>X end' pc_offset pc dec branch_num labels T.
       \<not> (pc < end' \<and> (\<forall>d. snd (riscv_decode_instruction X d pc) = pc))",
     OF _ assms], goal_cases)
  case (1 scan X end' pc_offset pc dec branch_num labels T)
  show ?case
  proof
    assume a: "pc < end' \<and> (\<forall>d. snd (riscv_decode_instruction X d pc) = pc)"
    obtain dec1 next_pc where d: "riscv_decode_instruction X dec pc = (dec1, next_pc)"
      by (cases "riscv_decode_instruction X dec pc")
    from a have "snd (riscv_decode_instruction X dec pc) = pc" by blast
    with d have n: "next_pc = pc" by simp
    have step: "scan X end' pc_offset pc d' n' l' \<noteq> Some T" for d' n' l'
    proof
      assume "scan X end' pc_offset pc d' n' l' = Some T"
      from 1(1) [OF this] a show False by simp
    qed
    from 1(2) a d n have "(case type (riscv_decode_decompress X dec1) of
              riscv_inst_type_sb \<Rightarrow>
                scan X end' pc_offset pc (riscv_decode_decompress X dec1) (branch_num + 1)
                  (labels(pc - pc_offset + imm (riscv_decode_decompress X dec1)
                     \<mapsto> snprintf_LOC branch_num))
            | riscv_inst_type_uj \<Rightarrow>
                scan X end' pc_offset pc (riscv_decode_decompress X dec1) (branch_num + 1)
                  (labels(pc - pc_offset + imm (riscv_decode_decompress X dec1)
                     \<mapsto> snprintf_LOC branch_num))
            | riscv_inst_type_other \<Rightarrow>
                scan X end' pc_offset pc (riscv_decode_decompress X dec1) branch_num labels)
          = Some T"
      by (simp add: Let_def)
    with step show False
      by (cases "type (riscv_decode_decompress X dec1)") simp_all
  qed
qed

lemma print_while_stuck:
  assumes "print_disassembly_while M X this end' pc_offset gp pc dec dec_hist out = Some out'"
  shows "\<not> (pc < end' \<and> (\<forall>d. snd (riscv_decode_instruction X d pc) = pc))"
proof (rule print_disassembly_while.raw_induct
    [where P = "\<lambda>M X this end' pc_offset gp pc dec dec_hist out out'.
       \<not> (pc < end' \<and> (\<forall>d. snd (riscv_decode_instruction X d pc) = pc))",
     OF _ assms], goal_cases)
  case (1 print M X this end' pc_offset gp pc dec dec_hist out out')
  show ?case
  proof
    assume a: "pc < end' \<and> (\<forall>d. snd (riscv_decode_instruction X d pc) = pc)"
    obtain dec1 next_pc where d: "riscv_decode_instruction X dec pc = (dec1, next_pc)"
      by (cases "riscv_decode_instruction X dec pc")
    from a have "snd (riscv_decode_instruction X dec pc) = pc" by blast
    with d have n: "next_pc = pc" by simp
    obtain dec2 dec_hist2 printed where
      p: "riscv_disasm_instruction X dec1 dec_hist pc pc pc_offset gp
            (\<lambda>addr. fst (symlookup this addr)) (colorize M X this) = (dec2, dec_hist2, printed)"
      by (cases "riscv_disasm_instruction X dec1 dec_hist pc pc pc_offset gp
            (\<lambda>addr. fst (symlookup this addr)) (colorize M X this)")
    from 1(2) a d n p
    have "print M X this end' pc_offset gp pc dec2 dec_hist2 (out @ printed) = Some out'"
      by simp
    from 1(1) [OF this] a show False by simp
  qed
qed

subsection \<open>The label scan\<close>

text \<open>
  Claim C1, as the code has it. For an instruction of the scan classified as a conditional
  branch or an unconditional jump, the scanner binds the target address to the synthetic name
  built from the per-region counter and then increments the counter, whether or not the
  address is already a key of the Label Table: the scan goes on with the counter one higher
  and with the table updated at the target, an entry that was there being overwritten.
\<close>

theorem scan_branch_binds_target:
  assumes "pc < end'"
    and "riscv_decode_instruction X dec pc = (dec1, next_pc)"
    and "type (riscv_decode_decompress X dec1) = riscv_inst_type_sb \<or>
         type (riscv_decode_decompress X dec1) = riscv_inst_type_uj"
  shows "scan_branch_labels_while X end' pc_offset pc dec branch_num labels =
         scan_branch_labels_while X end' pc_offset next_pc (riscv_decode_decompress X dec1)
           (branch_num + 1)
           (labels(pc - pc_offset + imm (riscv_decode_decompress X dec1)
              \<mapsto> snprintf_LOC branch_num))"
  using assms by (rule scan_while_branch)

text \<open>
  The second jump of the demo section, met with its target 1008 already in the table under
  the first name: the scan goes on with the second name at 1008 and with the counter at 3.
\<close>

theorem scan_branch_binds_target_witness:
  "(104 :: riscv_ptr) < 112 \<and>
   riscv_decode_instruction demo \<lparr>type = riscv_inst_type_uj, imm = 8\<rparr> 104 =
     (\<lparr>type = riscv_inst_type_uj, imm = 4\<rparr>, 108) \<and>
   (type (riscv_decode_decompress demo \<lparr>type = riscv_inst_type_uj, imm = 4\<rparr>) = riscv_inst_type_sb \<or>
    type (riscv_decode_decompress demo \<lparr>type = riscv_inst_type_uj, imm = 4\<rparr>) = riscv_inst_type_uj) \<and>
   scan_branch_labels_while demo 112 (100 - 1000) 104 \<lparr>type = riscv_inst_type_uj, imm = 8\<rparr> 2
       [1008 \<mapsto> ''LOC_000001''] =
     scan_branch_labels_while demo 112 (100 - 1000) 108 \<lparr>type = riscv_inst_type_uj, imm = 4\<rparr> 3
       [1008 \<mapsto> ''LOC_000002'']"
proof -
  have h1: "(104 :: riscv_ptr) < 112"
    by simp
  have h2: "riscv_decode_instruction demo \<lparr>type = riscv_inst_type_uj, imm = 8\<rparr> 104 =
      (\<lparr>type = riscv_inst_type_uj, imm = 4\<rparr>, 108)"
    by (simp add: demo_def demo_decode_def)
  have h3: "type (riscv_decode_decompress demo \<lparr>type = riscv_inst_type_uj, imm = 4\<rparr>) = riscv_inst_type_sb \<or>
      type (riscv_decode_decompress demo \<lparr>type = riscv_inst_type_uj, imm = 4\<rparr>) = riscv_inst_type_uj"
    by (simp add: demo_def)
  have d: "riscv_decode_decompress demo \<lparr>type = riscv_inst_type_uj, imm = 4\<rparr> =
      \<lparr>type = riscv_inst_type_uj, imm = 4\<rparr>"
    by (simp add: demo_def)
  from scan_branch_binds_target [OF h1 h2 h3, of "100 - 1000" 2 "[1008 \<mapsto> ''LOC_000001'']"]
  have "scan_branch_labels_while demo 112 (100 - 1000) 104 \<lparr>type = riscv_inst_type_uj, imm = 8\<rparr> 2
       [1008 \<mapsto> ''LOC_000001''] =
     scan_branch_labels_while demo 112 (100 - 1000) 108 \<lparr>type = riscv_inst_type_uj, imm = 4\<rparr> 3
       [1008 \<mapsto> ''LOC_000002'']"
    by (simp add: d snprintf_LOC_2)
  with h1 h2 h3 show ?thesis by blast
qed

text \<open>
  Against C1 as it is stated. The demo section is scanned from an empty table. After the
  first jump the table binds 1008 to the first name. The second jump has the same target:
  the entry is replaced by the second name, and the counter was incremented, since the
  branch after it gets the third name.
\<close>

theorem scan_replaces_existing_label:
  "map_option branch_labels (scan_branch_labels_range demo demo_parser 100 104 (100 - 1000)) =
     Some [1008 \<mapsto> ''LOC_000001''] \<and>
   map_option branch_labels (scan_branch_labels_range demo demo_parser 100 108 (100 - 1000)) =
     Some [1008 \<mapsto> ''LOC_000002''] \<and>
   map_option branch_labels (scan_branch_labels_range demo demo_parser 100 112 (100 - 1000)) =
     Some [1008 \<mapsto> ''LOC_000002'', 1000 \<mapsto> ''LOC_000003'']"
  by (simp add: scan_branch_labels_range_def scan_branch_labels_while.simps demo_def
      demo_parser_def demo_decode_def snprintf_LOC_1 snprintf_LOC_2 snprintf_LOC_3)

text \<open>
  Claim C2, as the code has it. Both walks over a region return when the decoder moves the
  position forward at every position below the end of the region. The code has no check for
  a decode that does not advance: when the decoder gives back the position it was given at
  the start of a region that is not empty, neither walk returns, and nothing is reported.
\<close>

theorem region_walks_return:
  "((\<forall>dec pc. pc < end' \<longrightarrow> pc < snd (riscv_decode_instruction X dec pc)) \<longrightarrow>
      (\<exists>this'. scan_branch_labels_range X this start end' pc_offset = Some this') \<and>
      (\<exists>out'. print_disassembly_range M X this start end' pc_offset gp out = Some out')) \<and>
   (start < end' \<and> (\<forall>dec. snd (riscv_decode_instruction X dec start) = start) \<longrightarrow>
      scan_branch_labels_range X this start end' pc_offset = None \<and>
      print_disassembly_range M X this start end' pc_offset gp out = None)"
proof (intro conjI impI)
  assume p: "\<forall>dec pc. pc < end' \<longrightarrow> pc < snd (riscv_decode_instruction X dec pc)"
  from scan_while_returns [OF p]
  show "\<exists>this'. scan_branch_labels_range X this start end' pc_offset = Some this'"
    by (simp add: scan_branch_labels_range_def)
  from print_while_returns [OF p]
  show "\<exists>out'. print_disassembly_range M X this start end' pc_offset gp out = Some out'"
    by (simp add: print_disassembly_range_def)
next
  assume s: "start < end' \<and> (\<forall>dec. snd (riscv_decode_instruction X dec start) = start)"
  have "scan_branch_labels_while X end' pc_offset start (riscv_decode_new X) 1
          (branch_labels this) = None"
    using scan_while_stuck [of X end' pc_offset start "riscv_decode_new X" 1 "branch_labels this"] s
    by (cases "scan_branch_labels_while X end' pc_offset start (riscv_decode_new X) 1
          (branch_labels this)") simp_all
  then show "scan_branch_labels_range X this start end' pc_offset = None"
    by (simp add: scan_branch_labels_range_def)
  show "print_disassembly_range M X this start end' pc_offset gp out = None"
    unfolding print_disassembly_range_def
    using print_while_stuck [of M X this end' pc_offset gp start "riscv_decode_new X" "[]" out] s
    by (cases "print_disassembly_while M X this end' pc_offset gp start (riscv_decode_new X) [] out")
      simp_all
qed

text \<open>
  The demo decoder advances by four bytes below position 112, and both walks over the demo
  section return; the stuck decoder stays at position 100, and neither walk returns.
\<close>

theorem region_walks_return_witness:
  "\<not> (\<exists>dec pc. pc < (112 :: riscv_ptr) \<and> snd (riscv_decode_instruction demo dec pc) \<le> pc) \<and>
   (\<exists>this'. scan_branch_labels_range demo demo_parser 100 112 (100 - 1000) = Some this') \<and>
   (\<exists>out'. print_disassembly_range demo_macros demo demo_parser 100 112 (100 - 1000) 0 [] = Some out') \<and>
   (100 :: riscv_ptr) < 112 \<and>
   (\<forall>dec. snd (riscv_decode_instruction demo_stuck dec 100) = 100) \<and>
   scan_branch_labels_range demo_stuck demo_parser 100 112 (100 - 1000) = None \<and>
   print_disassembly_range demo_macros demo_stuck demo_parser 100 112 (100 - 1000) 0 [] = None"
proof -
  have adv: "pc < pc + 4" if "pc < 112" for pc :: riscv_ptr
  proof -
    from that have "unat pc < 112" by (simp add: word_less_nat_alt)
    then have "unat (pc + 4) = unat pc + 4" by (simp add: unat_word_ariths)
    then show ?thesis by (simp add: word_less_nat_alt)
  qed
  have h1: "\<forall>dec pc. pc < (112 :: riscv_ptr) \<longrightarrow> pc < snd (riscv_decode_instruction demo dec pc)"
    by (simp add: demo_def demo_decode_def adv)
  have h2: "(100 :: riscv_ptr) < 112 \<and>
      (\<forall>dec. snd (riscv_decode_instruction demo_stuck dec 100) = 100)"
    by (simp add: demo_stuck_def demo_def)
  from region_walks_return [of 112 demo demo_parser 100 "100 - 1000" demo_macros 0 "[]"] h1
  have a: "(\<exists>this'. scan_branch_labels_range demo demo_parser 100 112 (100 - 1000) = Some this') \<and>
      (\<exists>out'. print_disassembly_range demo_macros demo demo_parser 100 112 (100 - 1000) 0 [] = Some out')"
    by blast
  from region_walks_return [of 112 demo_stuck demo_parser 100 "100 - 1000" demo_macros 0 "[]"] h2
  have b: "scan_branch_labels_range demo_stuck demo_parser 100 112 (100 - 1000) = None \<and>
      print_disassembly_range demo_macros demo_stuck demo_parser 100 112 (100 - 1000) 0 [] = None"
    by blast
  from h1 have h1': "\<not> (\<exists>dec pc. pc < (112 :: riscv_ptr) \<and>
      snd (riscv_decode_instruction demo dec pc) \<le> pc)"
    by (auto simp: not_le [symmetric])
  from h1' h2 a b show ?thesis by blast
qed

text \<open>
  Against C2 as it is stated. With the stuck decoder, which reports no forward progress,
  neither walk over the demo section terminates: no error is reported, and neither returns.
\<close>

theorem walks_loop_on_stuck_decoder:
  "scan_branch_labels_range demo_stuck demo_parser 100 112 (100 - 1000) = None \<and>
   print_disassembly_range demo_macros demo_stuck demo_parser 100 112 (100 - 1000) 0 [] = None"
proof -
  have s: "(100 :: riscv_ptr) < 112 \<and>
      (\<forall>dec. snd (riscv_decode_instruction demo_stuck dec 100) = 100)"
    by (simp add: demo_stuck_def demo_def)
  have "scan_branch_labels_while demo_stuck 112 (100 - 1000) 100 (riscv_decode_new demo_stuck) 1
          (branch_labels demo_parser) = None"
    using scan_while_stuck [of demo_stuck 112 "100 - 1000" 100 "riscv_decode_new demo_stuck" 1
        "branch_labels demo_parser"] s
    by (cases "scan_branch_labels_while demo_stuck 112 (100 - 1000) 100
          (riscv_decode_new demo_stuck) 1 (branch_labels demo_parser)") simp_all
  moreover have "print_disassembly_while demo_macros demo_stuck demo_parser 112 (100 - 1000) 0 100
          (riscv_decode_new demo_stuck) [] [] = None"
    using print_while_stuck [of demo_macros demo_stuck demo_parser 112 "100 - 1000" 0 100
        "riscv_decode_new demo_stuck" "[]" "[]"] s
    by (cases "print_disassembly_while demo_macros demo_stuck demo_parser 112 (100 - 1000) 0 100
          (riscv_decode_new demo_stuck) [] []") simp_all
  ultimately show ?thesis
    by (simp add: scan_branch_labels_range_def print_disassembly_range_def)
qed

text \<open>
  Claim C3. For every instruction the scan of a region decodes that is classified as a
  conditional branch or an unconditional jump, the target address the scanner computes is
  the position minus the load-address offset of the region plus the signed immediate, as a
  64-bit address. At the instruction, the scan goes on with the table bound at exactly that
  address. The keys of the table a scan of the region returns are the keys it started with
  and exactly these addresses. The scan returns when the decoder moves the position forward.
\<close>

theorem scan_target_address:
  "(pc < end' \<and> riscv_decode_instruction X dec pc = (dec1, next_pc) \<and>
    (type (riscv_decode_decompress X dec1) = riscv_inst_type_sb \<or>
     type (riscv_decode_decompress X dec1) = riscv_inst_type_uj) \<longrightarrow>
      (\<exists>addr. uint addr =
           (uint pc - uint pc_offset + sint (imm (riscv_decode_decompress X dec1))) mod 2 ^ 64 \<and>
         scan_branch_labels_while X end' pc_offset pc dec branch_num labels =
           scan_branch_labels_while X end' pc_offset next_pc (riscv_decode_decompress X dec1)
             (branch_num + 1) (labels(addr \<mapsto> snprintf_LOC branch_num)))) \<and>
   (scan_branch_labels_range X this start end' pc_offset = Some this' \<longrightarrow>
      dom (branch_labels this') =
        dom (branch_labels this) \<union>
        {addr. \<exists>pc dec dec1 next_pc.
           scan_reaches X end' (start, riscv_decode_new X) (pc, dec) \<and> pc < end' \<and>
           riscv_decode_instruction X dec pc = (dec1, next_pc) \<and>
           (type (riscv_decode_decompress X dec1) = riscv_inst_type_sb \<or>
            type (riscv_decode_decompress X dec1) = riscv_inst_type_uj) \<and>
           uint addr =
             (uint pc - uint pc_offset + sint (imm (riscv_decode_decompress X dec1))) mod 2 ^ 64}) \<and>
   ((\<forall>dec pc. pc < end' \<longrightarrow> pc < snd (riscv_decode_instruction X dec pc)) \<longrightarrow>
      (\<exists>this'. scan_branch_labels_range X this start end' pc_offset = Some this'))"
proof (intro conjI impI)
  assume a: "pc < end' \<and> riscv_decode_instruction X dec pc = (dec1, next_pc) \<and>
    (type (riscv_decode_decompress X dec1) = riscv_inst_type_sb \<or>
     type (riscv_decode_decompress X dec1) = riscv_inst_type_uj)"
  then have "scan_branch_labels_while X end' pc_offset pc dec branch_num labels =
      scan_branch_labels_while X end' pc_offset next_pc (riscv_decode_decompress X dec1)
        (branch_num + 1)
        (labels(pc - pc_offset + imm (riscv_decode_decompress X dec1) \<mapsto> snprintf_LOC branch_num))"
    by (intro scan_while_branch) simp_all
  with target_uint [of pc pc_offset "imm (riscv_decode_decompress X dec1)"]
  show "\<exists>addr. uint addr =
           (uint pc - uint pc_offset + sint (imm (riscv_decode_decompress X dec1))) mod 2 ^ 64 \<and>
         scan_branch_labels_while X end' pc_offset pc dec branch_num labels =
           scan_branch_labels_while X end' pc_offset next_pc (riscv_decode_decompress X dec1)
             (branch_num + 1) (labels(addr \<mapsto> snprintf_LOC branch_num))"
    by blast
next
  assume "scan_branch_labels_range X this start end' pc_offset = Some this'"
  then obtain T where
    T: "scan_branch_labels_while X end' pc_offset start (riscv_decode_new X) 1
          (branch_labels this) = Some T"
    and t: "this' = this\<lparr>branch_labels := T\<rparr>"
    by (auto simp: scan_branch_labels_range_def)
  have u: "uint addr = (uint pc - uint pc_offset + sint i) mod 2 ^ 64 \<longleftrightarrow>
      addr = pc - pc_offset + i" for addr pc i :: "64 word"
    unfolding target_uint [symmetric] by (simp add: word_uint_eq_iff)
  have d: "dom (branch_labels this') = dom T"
    using t by simp
  have s: "{addr. \<exists>pc dec dec1 next_pc.
           scan_reaches X end' (start, riscv_decode_new X) (pc, dec) \<and> pc < end' \<and>
           riscv_decode_instruction X dec pc = (dec1, next_pc) \<and>
           (type (riscv_decode_decompress X dec1) = riscv_inst_type_sb \<or>
            type (riscv_decode_decompress X dec1) = riscv_inst_type_uj) \<and>
           uint addr =
             (uint pc - uint pc_offset + sint (imm (riscv_decode_decompress X dec1))) mod 2 ^ 64} =
      scan_targets X end' pc_offset (start, riscv_decode_new X)"
    by (simp only: scan_targets_def u)
  show "dom (branch_labels this') =
        dom (branch_labels this) \<union>
        {addr. \<exists>pc dec dec1 next_pc.
           scan_reaches X end' (start, riscv_decode_new X) (pc, dec) \<and> pc < end' \<and>
           riscv_decode_instruction X dec pc = (dec1, next_pc) \<and>
           (type (riscv_decode_decompress X dec1) = riscv_inst_type_sb \<or>
            type (riscv_decode_decompress X dec1) = riscv_inst_type_uj) \<and>
           uint addr =
             (uint pc - uint pc_offset + sint (imm (riscv_decode_decompress X dec1))) mod 2 ^ 64}"
    by (simp only: d s scan_while_dom [OF T])
next
  assume p: "\<forall>dec pc. pc < end' \<longrightarrow> pc < snd (riscv_decode_instruction X dec pc)"
  from scan_while_returns [OF p]
  show "\<exists>this'. scan_branch_labels_range X this start end' pc_offset = Some this'"
    by (simp add: scan_branch_labels_range_def)
qed

text \<open>
  The demo section. At the branch at position 108, which the scan reaches after the two
  jumps, position 108 is address 1008 and the immediate is \<open>-8\<close>: the address bound is 1000.
  The scan of the section returns, and the addresses of the formula over the instructions it
  decodes are 1000 and 1008 and no other.
\<close>

theorem scan_target_address_witness:
  "(108 :: riscv_ptr) < 112 \<and>
   riscv_decode_instruction demo \<lparr>type = riscv_inst_type_uj, imm = 4\<rparr> 108 =
     (\<lparr>type = riscv_inst_type_sb, imm = - 8\<rparr>, 112) \<and>
   type (riscv_decode_decompress demo \<lparr>type = riscv_inst_type_sb, imm = - 8\<rparr>) = riscv_inst_type_sb \<and>
   (\<exists>addr :: riscv_ptr. uint addr = 1000 \<and>
      scan_branch_labels_while demo 112 (100 - 1000) 108 \<lparr>type = riscv_inst_type_uj, imm = 4\<rparr> 3
          [1008 \<mapsto> ''LOC_000002''] =
        scan_branch_labels_while demo 112 (100 - 1000) 112 \<lparr>type = riscv_inst_type_sb, imm = - 8\<rparr> 4
          ([1008 \<mapsto> ''LOC_000002''](addr \<mapsto> ''LOC_000003''))) \<and>
   scan_branch_labels_range demo demo_parser 100 112 (100 - 1000) =
     Some (demo_parser\<lparr>branch_labels := [1008 \<mapsto> ''LOC_000002'', 1000 \<mapsto> ''LOC_000003'']\<rparr>) \<and>
   {addr :: riscv_ptr. \<exists>pc dec dec1 next_pc.
      scan_reaches demo 112 (100, riscv_decode_new demo) (pc, dec) \<and> pc < 112 \<and>
      riscv_decode_instruction demo dec pc = (dec1, next_pc) \<and>
      (type (riscv_decode_decompress demo dec1) = riscv_inst_type_sb \<or>
       type (riscv_decode_decompress demo dec1) = riscv_inst_type_uj) \<and>
      uint addr =
        (uint pc - uint (100 - 1000 :: riscv_ptr) + sint (imm (riscv_decode_decompress demo dec1)))
          mod 2 ^ 64} = {1000, 1008} \<and>
   \<not> (\<exists>dec pc. pc < (112 :: riscv_ptr) \<and> snd (riscv_decode_instruction demo dec pc) \<le> pc) \<and>
   (\<exists>this'. scan_branch_labels_range demo demo_parser 100 112 (100 - 1000) = Some this')"
proof -
  let ?scanned = "demo_parser\<lparr>branch_labels := [1008 \<mapsto> ''LOC_000002'', 1000 \<mapsto> ''LOC_000003'']\<rparr>"
  let ?S = "{addr :: riscv_ptr. \<exists>pc dec dec1 next_pc.
      scan_reaches demo 112 (100, riscv_decode_new demo) (pc, dec) \<and> pc < 112 \<and>
      riscv_decode_instruction demo dec pc = (dec1, next_pc) \<and>
      (type (riscv_decode_decompress demo dec1) = riscv_inst_type_sb \<or>
       type (riscv_decode_decompress demo dec1) = riscv_inst_type_uj) \<and>
      uint addr =
        (uint pc - uint (100 - 1000 :: riscv_ptr) + sint (imm (riscv_decode_decompress demo dec1)))
          mod 2 ^ 64}"
  note inst = scan_target_address [of 108 112 demo "\<lparr>type = riscv_inst_type_uj, imm = 4\<rparr>"
      "\<lparr>type = riscv_inst_type_sb, imm = - 8\<rparr>" 112 "100 - 1000" 3
      "[1008 \<mapsto> ''LOC_000002'']" demo_parser 100 ?scanned]
  have h1: "(108 :: riscv_ptr) < 112"
    by simp
  have h2: "riscv_decode_instruction demo \<lparr>type = riscv_inst_type_uj, imm = 4\<rparr> 108 =
      (\<lparr>type = riscv_inst_type_sb, imm = - 8\<rparr>, 112)"
    by (simp add: demo_def demo_decode_def)
  have h3: "type (riscv_decode_decompress demo \<lparr>type = riscv_inst_type_sb, imm = - 8\<rparr>) = riscv_inst_type_sb"
    by (simp add: demo_def)
  have d: "riscv_decode_decompress demo \<lparr>type = riscv_inst_type_sb, imm = - 8\<rparr> =
      \<lparr>type = riscv_inst_type_sb, imm = - 8\<rparr>"
    by (simp add: demo_def)
  have u: "(uint (108 :: riscv_ptr) - uint (100 - 1000 :: riscv_ptr) + sint (- 8 :: 64 word)) mod 2 ^ 64 = 1000"
    by simp
  from inst [THEN conjunct1] h1 h2 h3
  have step: "\<exists>addr :: riscv_ptr. uint addr = 1000 \<and>
      scan_branch_labels_while demo 112 (100 - 1000) 108 \<lparr>type = riscv_inst_type_uj, imm = 4\<rparr> 3
          [1008 \<mapsto> ''LOC_000002''] =
        scan_branch_labels_while demo 112 (100 - 1000) 112 \<lparr>type = riscv_inst_type_sb, imm = - 8\<rparr> 4
          ([1008 \<mapsto> ''LOC_000002''](addr \<mapsto> ''LOC_000003''))"
    by (simp add: d u snprintf_LOC_3)
  have h4: "scan_branch_labels_range demo demo_parser 100 112 (100 - 1000) = Some ?scanned"
    by (simp add: scan_branch_labels_range_def scan_branch_labels_while.simps demo_def
        demo_parser_def demo_decode_def snprintf_LOC_1 snprintf_LOC_2 snprintf_LOC_3)
  have keys: "dom (branch_labels ?scanned) = {1000, 1008}"
    by auto
  have none: "dom (branch_labels demo_parser) = {}"
    by (simp add: demo_parser_def)
  from inst [THEN conjunct2, THEN conjunct1, THEN mp, OF h4]
  have eq: "dom (branch_labels ?scanned) = dom (branch_labels demo_parser) \<union> ?S" .
  have set: "?S = {1000, 1008}"
    using eq [unfolded keys none Un_empty_left, symmetric] .
  have adv: "pc < pc + 4" if "pc < 112" for pc :: riscv_ptr
  proof -
    from that have "unat pc < 112" by (simp add: word_less_nat_alt)
    then have "unat (pc + 4) = unat pc + 4" by (simp add: unat_word_ariths)
    then show ?thesis by (simp add: word_less_nat_alt)
  qed
  have h5: "\<forall>dec pc. pc < (112 :: riscv_ptr) \<longrightarrow> pc < snd (riscv_decode_instruction demo dec pc)"
    by (simp add: demo_def demo_decode_def adv)
  then have h5': "\<not> (\<exists>dec pc. pc < (112 :: riscv_ptr) \<and>
      snd (riscv_decode_instruction demo dec pc) \<le> pc)"
    by (auto simp: not_le [symmetric])
  from inst [THEN conjunct2, THEN conjunct2, THEN mp, OF h5]
  have ret: "\<exists>this'. scan_branch_labels_range demo demo_parser 100 112 (100 - 1000) = Some this'" .
  from h1 h2 h3 step h4 set h5' ret show ?thesis
    by blast
qed

subsection \<open>The name resolver\<close>

text \<open>
  Claim C4. When the symbol table has a symbol at exactly the address, the resolver returns
  the name of the first such symbol, whatever the Label Table holds at the address. When it
  has none, the resolver returns the entry of the Label Table at the address: the synthetic
  label if the address is a key, and no name if it is not.
\<close>

theorem symlookup_order:
  "((\<exists>s \<in> set (symbols (elf this)). st_value s = addr) \<longrightarrow>
      (\<exists>i < length (symbols (elf this)).
         st_value (symbols (elf this) ! i) = addr \<and>
         (\<forall>j < i. st_value (symbols (elf this) ! j) \<noteq> addr) \<and>
         fst (symlookup this addr) = Some (st_name (symbols (elf this) ! i)))) \<and>
   ((\<forall>s \<in> set (symbols (elf this)). st_value s \<noteq> addr) \<longrightarrow>
      fst (symlookup this addr) = branch_labels this addr)"
proof (intro conjI impI)
  assume "\<exists>s \<in> set (symbols (elf this)). st_value s = addr"
  then obtain found where f: "elf_sym_by_addr (elf this) addr = Some found"
    by (cases "elf_sym_by_addr (elf this) addr")
       (auto simp: elf_sym_by_addr_def find_None_iff)
  then obtain i where "i < length (symbols (elf this))"
    and "st_value (symbols (elf this) ! i) = addr"
    and "found = symbols (elf this) ! i"
    and "\<forall>j < i. st_value (symbols (elf this) ! j) \<noteq> addr"
    by (auto simp: elf_sym_by_addr_def find_Some_iff)
  moreover from f have "fst (symlookup this addr) = Some (st_name found)"
    by (simp add: symlookup_def elf_sym_name_def)
  ultimately show "\<exists>i < length (symbols (elf this)).
         st_value (symbols (elf this) ! i) = addr \<and>
         (\<forall>j < i. st_value (symbols (elf this) ! j) \<noteq> addr) \<and>
         fst (symlookup this addr) = Some (st_name (symbols (elf this) ! i))"
    by blast
next
  assume "\<forall>s \<in> set (symbols (elf this)). st_value s \<noteq> addr"
  then have "elf_sym_by_addr (elf this) addr = None"
    by (simp add: elf_sym_by_addr_def find_None_iff)
  then show "fst (symlookup this addr) = branch_labels this addr"
    by (simp add: symlookup_def split: option.split)
qed

text \<open>
  The demo container after the scan: address 1000 is the symbol \<open>_start\<close> and a key of the
  Label Table, and resolves to the symbol; address 1008 is a key only, and resolves to its
  label; address 1004 is neither, and has no name.
\<close>

theorem symlookup_order_witness:
  "(\<exists>s \<in> set (symbols (elf (demo_parser\<lparr>branch_labels :=
        [1008 \<mapsto> ''LOC_000002'', 1000 \<mapsto> ''LOC_000003'']\<rparr>))). st_value s = 1000) \<and>
   branch_labels (demo_parser\<lparr>branch_labels :=
        [1008 \<mapsto> ''LOC_000002'', 1000 \<mapsto> ''LOC_000003'']\<rparr>) 1000 = Some ''LOC_000003'' \<and>
   fst (symlookup (demo_parser\<lparr>branch_labels :=
        [1008 \<mapsto> ''LOC_000002'', 1000 \<mapsto> ''LOC_000003'']\<rparr>) 1000) = Some ''_start'' \<and>
   1008 \<notin> st_value ` set (symbols (elf (demo_parser\<lparr>branch_labels :=
        [1008 \<mapsto> ''LOC_000002'', 1000 \<mapsto> ''LOC_000003'']\<rparr>))) \<and>
   fst (symlookup (demo_parser\<lparr>branch_labels :=
        [1008 \<mapsto> ''LOC_000002'', 1000 \<mapsto> ''LOC_000003'']\<rparr>) 1008) = Some ''LOC_000002'' \<and>
   1004 \<notin> st_value ` set (symbols (elf (demo_parser\<lparr>branch_labels :=
        [1008 \<mapsto> ''LOC_000002'', 1000 \<mapsto> ''LOC_000003'']\<rparr>))) \<and>
   fst (symlookup (demo_parser\<lparr>branch_labels :=
        [1008 \<mapsto> ''LOC_000002'', 1000 \<mapsto> ''LOC_000003'']\<rparr>) 1004) = None"
proof -
  let ?P = "demo_parser\<lparr>branch_labels := [1008 \<mapsto> ''LOC_000002'', 1000 \<mapsto> ''LOC_000003'']\<rparr>"
  have s: "symbols (elf demo_parser) = [\<lparr>st_name = ''_start'', st_value = 1000\<rparr>]"
    by (simp add: demo_parser_def demo_elf_def)
  have h1: "\<exists>s \<in> set (symbols (elf ?P)). st_value s = 1000"
    by (simp add: s)
  have h2: "\<forall>s \<in> set (symbols (elf ?P)). st_value s \<noteq> 1008"
    by (simp add: s)
  have h3: "\<forall>s \<in> set (symbols (elf ?P)). st_value s \<noteq> 1004"
    by (simp add: s)
  have l: "branch_labels ?P 1000 = Some ''LOC_000003''"
    by simp
  from symlookup_order [of ?P 1000] h1
  have a: "fst (symlookup ?P 1000) = Some ''_start''"
    by (simp add: s)
  from symlookup_order [of ?P 1008] h2
  have b: "fst (symlookup ?P 1008) = Some ''LOC_000002''"
    by simp
  from symlookup_order [of ?P 1004] h3
  have c: "fst (symlookup ?P 1004) = None"
    by simp
  from h2 have h2': "1008 \<notin> st_value ` set (symbols (elf ?P))"
    by auto
  from h3 have h3': "1004 \<notin> st_value ` set (symbols (elf ?P))"
    by auto
  from h1 h2' h3' l a b c show ?thesis by blast
qed

text \<open>
  Claim C9. A lookup through the resolver leaves the parser state, and with it the Label
  Table, as it was. For an address that is neither a symbol nor a key of the Label Table the
  resolver returns no name, and the address is not a key afterwards.
\<close>

theorem symlookup_keeps_labels:
  "snd (symlookup this addr) = this \<and>
   branch_labels (snd (symlookup this addr)) = branch_labels this \<and>
   (elf_sym_by_addr (elf this) addr = None \<and> addr \<notin> dom (branch_labels this) \<longrightarrow>
      fst (symlookup this addr) = None \<and>
      addr \<notin> dom (branch_labels (snd (symlookup this addr))))"
proof -
  have "snd (symlookup this addr) = this"
    by (simp add: symlookup_def split: option.split)
  then show ?thesis
    by (auto simp: symlookup_def split: option.split)
qed

text \<open>Address 1004 of the demo container, before any scan: no symbol, no label, no entry made.\<close>

theorem symlookup_keeps_labels_witness:
  "elf_sym_by_addr (elf demo_parser) 1004 = None \<and>
   1004 \<notin> dom (branch_labels demo_parser) \<and>
   fst (symlookup demo_parser 1004) = None \<and>
   1004 \<notin> dom (branch_labels (snd (symlookup demo_parser 1004))) \<and>
   dom (branch_labels (snd (symlookup demo_parser 1004))) = {}"
proof -
  have h: "elf_sym_by_addr (elf demo_parser) 1004 = None \<and> 1004 \<notin> dom (branch_labels demo_parser)"
    by (simp add: elf_sym_by_addr_def demo_parser_def demo_elf_def)
  have e: "dom (branch_labels demo_parser) = {}"
    by (simp add: demo_parser_def)
  from symlookup_keeps_labels [of demo_parser 1004] h e
  have "fst (symlookup demo_parser 1004) = None \<and>
      1004 \<notin> dom (branch_labels (snd (symlookup demo_parser 1004))) \<and>
      dom (branch_labels (snd (symlookup demo_parser 1004))) = {}"
    by simp
  with h show ?thesis by blast
qed

subsection \<open>The scan of all sections\<close>

text \<open>The scan of the sections changes the Label Table of the parser state and nothing else.\<close>

lemma scan_for_state:
  "scan_branch_labels_for M X hdrs this = Some this' \<Longrightarrow>
   \<exists>labels. this' = this\<lparr>branch_labels := labels\<rparr>"
proof (induction hdrs arbitrary: this)
  case Nil
  then have "this' = this\<lparr>branch_labels := branch_labels this\<rparr>"
    by simp
  then show ?case by (rule exI [of _ "branch_labels this"])
next
  case (Cons shdr rest)
  show ?case
  proof (cases "sh_flags shdr AND SHF_EXECINSTR M \<noteq> 0")
    case False
    with Cons show ?thesis by simp
  next
    case True
    with Cons.prems obtain mid where
      m: "scan_branch_labels_range X this
            (offset (elf this) (sh_offset shdr))
            (offset (elf this) (sh_offset shdr) + sh_size shdr)
            (offset (elf this) (sh_offset shdr) - sh_addr shdr) = Some mid"
      and r: "scan_branch_labels_for M X rest mid = Some this'"
      by (auto split: option.splits)
    from m obtain l where "mid = this\<lparr>branch_labels := l\<rparr>"
      by (auto simp: scan_branch_labels_range_def)
    moreover from Cons.IH [OF r] obtain l' where "this' = mid\<lparr>branch_labels := l'\<rparr>"
      by blast
    ultimately have "this' = this\<lparr>branch_labels := l'\<rparr>"
      by simp
    then show ?thesis by (rule exI [of _ l'])
  qed
qed

text \<open>
  Claim C8. A scan of all sections that returns a parser state returns the same state when
  it is run again from that state: the same address keys, each with the same name. The table
  the parser state held before the scan does not matter.
\<close>

theorem scan_branch_labels_idempotent:
  assumes "scan_branch_labels M X this = Some this'"
  shows "scan_branch_labels M X this' = Some this' \<and>
         scan_branch_labels M X (this\<lparr>branch_labels := labels\<rparr>) = Some this'"
proof -
  from assms scan_for_state [of M X "shdrs (elf this)" "this\<lparr>branch_labels := Map.empty\<rparr>" this']
  obtain l where "this' = this\<lparr>branch_labels := l\<rparr>"
    by (auto simp: scan_branch_labels_def)
  then have "scan_branch_labels M X this' = scan_branch_labels M X this"
    by (simp add: scan_branch_labels_def)
  moreover have "scan_branch_labels M X (this\<lparr>branch_labels := labels\<rparr>) = scan_branch_labels M X this"
    by (simp add: scan_branch_labels_def)
  ultimately show ?thesis
    using assms by simp
qed

text \<open>The scan of the demo container, run from its own result and from a table with an entry.\<close>

theorem scan_branch_labels_idempotent_witness:
  "scan_branch_labels demo_macros demo demo_parser =
     Some (demo_parser\<lparr>branch_labels := [1008 \<mapsto> ''LOC_000002'', 1000 \<mapsto> ''LOC_000003'']\<rparr>) \<and>
   scan_branch_labels demo_macros demo
       (demo_parser\<lparr>branch_labels := [1008 \<mapsto> ''LOC_000002'', 1000 \<mapsto> ''LOC_000003'']\<rparr>) =
     Some (demo_parser\<lparr>branch_labels := [1008 \<mapsto> ''LOC_000002'', 1000 \<mapsto> ''LOC_000003'']\<rparr>) \<and>
   scan_branch_labels demo_macros demo (demo_parser\<lparr>branch_labels := [7 \<mapsto> ''old'']\<rparr>) =
     Some (demo_parser\<lparr>branch_labels := [1008 \<mapsto> ''LOC_000002'', 1000 \<mapsto> ''LOC_000003'']\<rparr>)"
proof -
  have r: "scan_branch_labels_range demo (demo_parser\<lparr>branch_labels := Map.empty\<rparr>)
        100 112 (100 - 1000) =
      Some (demo_parser\<lparr>branch_labels := [1008 \<mapsto> ''LOC_000002'', 1000 \<mapsto> ''LOC_000003'']\<rparr>)"
    by (simp add: scan_branch_labels_range_def scan_branch_labels_while.simps demo_def
        demo_parser_def demo_decode_def snprintf_LOC_1 snprintf_LOC_2 snprintf_LOC_3)
  have o: "offset (elf demo_parser) 0 = 100" and e: "elf demo_parser = demo_elf"
    by (simp_all add: demo_parser_def demo_elf_def)
  have h: "scan_branch_labels demo_macros demo demo_parser =
      Some (demo_parser\<lparr>branch_labels := [1008 \<mapsto> ''LOC_000002'', 1000 \<mapsto> ''LOC_000003'']\<rparr>)"
    by (simp add: scan_branch_labels_def e demo_elf_def demo_macros_def o [simplified e demo_elf_def]
        r [simplified])
  from scan_branch_labels_idempotent [OF h, of "[7 \<mapsto> ''old'']"] h
  show ?thesis by simp
qed

subsection \<open>\<^verbatim>\<open>run\<close> and \<^verbatim>\<open>main\<close>\<close>

text \<open>
  Claim C6. When the container is loaded and its architecture identifier is not
  \<^verbatim>\<open>EM_RISCV\<close>, \<^verbatim>\<open>run\<close> returns, whether or not the disassembly was requested: it has printed
  each of the four header sections that was requested, in order, and the closing newline, and
  nothing for the disassembly; the Label Table is as it was.
\<close>

theorem run_skips_other_architecture:
  assumes "elf_load X (elf this) (filename this) = Inr loaded"
    and "e_machine (ehdr loaded) \<noteq> EM_RISCV M"
  shows "run M X this =
         Some (Inr (this\<lparr>elf := loaded\<rparr>,
           (if elf_header this then
              print_heading M X (this\<lparr>elf := loaded\<rparr>) ''ELF Header''
                @ elf_print_header_info X loaded (colorize M X (this\<lparr>elf := loaded\<rparr>))
            else [])
           @ (if section_headers this then
                print_heading M X (this\<lparr>elf := loaded\<rparr>) ''Section Headers''
                  @ elf_print_section_headers X loaded (colorize M X (this\<lparr>elf := loaded\<rparr>))
              else [])
           @ (if program_headers this then
                print_heading M X (this\<lparr>elf := loaded\<rparr>) ''Program Headers''
                  @ elf_print_program_headers X loaded (colorize M X (this\<lparr>elf := loaded\<rparr>))
              else [])
           @ (if symbol_table this then
                print_heading M X (this\<lparr>elf := loaded\<rparr>) ''Symbol Table''
                  @ elf_print_symbol_table X loaded (colorize M X (this\<lparr>elf := loaded\<rparr>))
              else [])
           @ newline))"
  using assms by (simp add: run_def print_sections_def Let_def)

text \<open>
  The demo container with architecture identifier 62, the symbol table and the disassembly
  requested: the symbol table is printed, the disassembly is not.
\<close>

theorem run_skips_other_architecture_witness:
  "elf_load (demo\<lparr>elf_load := (\<lambda>e name. Inr (demo_elf\<lparr>ehdr := \<lparr>e_machine = 62\<rparr>\<rparr>))\<rparr>)
       (elf (demo_parser\<lparr>symbol_table := True\<rparr>)) (filename (demo_parser\<lparr>symbol_table := True\<rparr>)) =
     Inr (demo_elf\<lparr>ehdr := \<lparr>e_machine = 62\<rparr>\<rparr>) \<and>
   e_machine (ehdr (demo_elf\<lparr>ehdr := \<lparr>e_machine = 62\<rparr>\<rparr>)) \<noteq> EM_RISCV demo_macros \<and>
   disassebly (demo_parser\<lparr>symbol_table := True\<rparr>) \<and>
   run demo_macros (demo\<lparr>elf_load := (\<lambda>e name. Inr (demo_elf\<lparr>ehdr := \<lparr>e_machine = 62\<rparr>\<rparr>))\<rparr>)
       (demo_parser\<lparr>symbol_table := True\<rparr>) =
     Some (Inr (demo_parser\<lparr>symbol_table := True, elf := demo_elf\<lparr>ehdr := \<lparr>e_machine = 62\<rparr>\<rparr>\<rparr>,
       newline @ ''---[ Symbol Table ]'' @ replicate 104 (CHR ''-'') @ newline @ newline
         @ ''symbols'' @ newline @ newline))"
proof -
  let ?X = "demo\<lparr>elf_load := (\<lambda>e name. Inr (demo_elf\<lparr>ehdr := \<lparr>e_machine = 62\<rparr>\<rparr>))\<rparr>"
  let ?P = "demo_parser\<lparr>symbol_table := True\<rparr>"
  have h1: "elf_load ?X (elf ?P) (filename ?P) = Inr (demo_elf\<lparr>ehdr := \<lparr>e_machine = 62\<rparr>\<rparr>)"
    by simp
  have h2: "e_machine (ehdr (demo_elf\<lparr>ehdr := \<lparr>e_machine = 62\<rparr>\<rparr>)) \<noteq> EM_RISCV demo_macros"
    by (simp add: demo_macros_def)
  have h3: "disassebly ?P"
    by (simp add: demo_parser_def)
  have f: "elf_header ?P = False" "section_headers ?P = False" "program_headers ?P = False"
      "symbol_table ?P = True"
    by (simp_all add: demo_parser_def)
  have c: "colorize demo_macros ?X (?P\<lparr>elf := demo_elf\<lparr>ehdr := \<lparr>e_machine = 62\<rparr>\<rparr>\<rparr>) = (\<lambda>tag. [])"
    by (simp add: colorize_def demo_parser_def fun_eq_iff)
  have d: "unat ((116 :: 64 word) - word_of_nat (length ''Symbol Table'')) = 104"
    by simp
  have p: "print_heading demo_macros ?X (?P\<lparr>elf := demo_elf\<lparr>ehdr := \<lparr>e_machine = 62\<rparr>\<rparr>\<rparr>) ''Symbol Table'' =
      newline @ ''---[ Symbol Table ]'' @ replicate 104 (CHR ''-'') @ newline @ newline"
    unfolding print_heading_def c d by simp
  have s: "elf_print_symbol_table ?X = (\<lambda>e color. ''symbols'' @ newline)"
    by (simp add: demo_def)
  from run_skips_other_architecture [OF h1 h2]
  have "run demo_macros ?X ?P =
     Some (Inr (demo_parser\<lparr>symbol_table := True, elf := demo_elf\<lparr>ehdr := \<lparr>e_machine = 62\<rparr>\<rparr>\<rparr>,
       newline @ ''---[ Symbol Table ]'' @ replicate 104 (CHR ''-'') @ newline @ newline
         @ ''symbols'' @ newline @ newline))"
    unfolding f p s by simp
  with h1 h2 h3 show ?thesis by blast
qed

text \<open>
  Claim C10. When \<^verbatim>\<open>process_options\<close> reports failure, or leaves a number of arguments other
  than one, or no callback has requested an output section, \<^verbatim>\<open>main\<close> ends with exit status 9
  and its output ends with the usage line and the option list. The output and the status are
  the same whatever the loader would do: the container is neither loaded nor read.
\<close>

theorem main_usage_exit:
  assumes "cmdline_process_options X options (argv0 # args) = (calls, printed, first, second)"
    and "\<not> second \<or> length first \<noteq> 1 \<or>
         (\<not> elf_header (fold invoke calls (elf_parser_new X)) \<and>
          \<not> section_headers (fold invoke calls (elf_parser_new X)) \<and>
          \<not> program_headers (fold invoke calls (elf_parser_new X)) \<and>
          \<not> symbol_table (fold invoke calls (elf_parser_new X)) \<and>
          \<not> disassebly (fold invoke calls (elf_parser_new X)))"
  shows "\<exists>before. \<forall>load.
           main M (X\<lparr>elf_load := load\<rparr>) argv0 args =
             Some (before @ ''usage: '' @ argv0 @ '' [<options>] <elf_file>'' @ newline
                     @ cmdline_print_options X options, 9)"
proof -
  let ?before = "if \<not> second then printed
                 else if length first \<noteq> 1 then
                   printed @ argv0 @ '': wrong number of arguments'' @ newline
                 else printed"
  have n: "elf_parser_new (X\<lparr>elf_load := load\<rparr>) = elf_parser_new X" for load
    by (simp add: elf_parser_new_def)
  have "main M (X\<lparr>elf_load := load\<rparr>) argv0 args =
             Some (?before @ ''usage: '' @ argv0 @ '' [<options>] <elf_file>'' @ newline
                     @ cmdline_print_options X options, 9)" for load
    using assms by (auto simp: main_def parse_commandline_def n Let_def)
  then show ?thesis by blast
qed

text \<open>
  The demo parser with the one argument \<open>a.out\<close> and no option: no section is requested,
  and \<^verbatim>\<open>main\<close> prints the usage and ends with status 9.
\<close>

theorem main_usage_exit_witness:
  "cmdline_process_options demo options [''prog'', ''a.out''] = ([], [], [''a.out''], True) \<and>
   \<not> disassebly (fold invoke [] (elf_parser_new demo)) \<and>
   (\<exists>before. \<forall>load.
      main demo_macros (demo\<lparr>elf_load := load\<rparr>) ''prog'' [''a.out''] =
        Some (before @ ''usage: prog [<options>] <elf_file>'' @ newline
                @ cmdline_print_options demo options, 9))"
proof -
  have h1: "cmdline_process_options demo options [''prog'', ''a.out''] = ([], [], [''a.out''], True)"
    by (simp add: demo_def demo_process_options_def)
  have h2: "\<not> True \<or> length [''a.out''] \<noteq> 1 \<or>
         (\<not> elf_header (fold invoke [] (elf_parser_new demo)) \<and>
          \<not> section_headers (fold invoke [] (elf_parser_new demo)) \<and>
          \<not> program_headers (fold invoke [] (elf_parser_new demo)) \<and>
          \<not> symbol_table (fold invoke [] (elf_parser_new demo)) \<and>
          \<not> disassebly (fold invoke [] (elf_parser_new demo)))"
    by (simp add: elf_parser_new_def)
  from main_usage_exit [OF h1 h2, of demo_macros]
  have "\<exists>before. \<forall>load.
      main demo_macros (demo\<lparr>elf_load := load\<rparr>) ''prog'' [''a.out''] =
        Some (before @ ''usage: prog [<options>] <elf_file>'' @ newline
                @ cmdline_print_options demo options, 9)"
    by simp
  with h1 h2 show ?thesis by simp
qed

subsection \<open>The order of the two phases\<close>

text \<open>What a print walk returns is what standard output held, and then what the walk printed.\<close>

lemma print_while_appends:
  assumes "print_disassembly_while M X this end' pc_offset gp pc dec dec_hist out = Some out'"
  shows "\<exists>printed. out' = out @ printed \<and>
           (\<forall>other. print_disassembly_while M X this end' pc_offset gp pc dec dec_hist other =
              Some (other @ printed))"
proof (rule print_disassembly_while.raw_induct
    [where P = "\<lambda>M X this end' pc_offset gp pc dec dec_hist out out'.
       \<exists>printed. out' = out @ printed \<and>
           (\<forall>other. print_disassembly_while M X this end' pc_offset gp pc dec dec_hist other =
              Some (other @ printed))",
     OF _ assms], goal_cases)
  case (1 print M X this end' pc_offset gp pc dec dec_hist out out')
  show ?case
  proof (cases "pc < end'")
    case False
    with 1(2) have "out' = out @ []"
      by simp
    moreover from False
    have "\<forall>other. print_disassembly_while M X this end' pc_offset gp pc dec dec_hist other =
              Some (other @ [])"
      by (subst print_disassembly_while.simps) simp
    ultimately show ?thesis by blast
  next
    case True
    obtain dec1 next_pc where d: "riscv_decode_instruction X dec pc = (dec1, next_pc)"
      by (cases "riscv_decode_instruction X dec pc")
    obtain dec2 dec_hist2 printed where
      p: "riscv_disasm_instruction X dec1 dec_hist pc next_pc pc_offset gp
            (\<lambda>addr. fst (symlookup this addr)) (colorize M X this) = (dec2, dec_hist2, printed)"
      by (cases "riscv_disasm_instruction X dec1 dec_hist pc next_pc pc_offset gp
            (\<lambda>addr. fst (symlookup this addr)) (colorize M X this)")
    from 1(2) True d p
    have "print M X this end' pc_offset gp next_pc dec2 dec_hist2 (out @ printed) = Some out'"
      by simp
    from 1(1) [OF this] obtain more where
      o: "out' = (out @ printed) @ more"
      and r: "\<forall>other. print_disassembly_while M X this end' pc_offset gp next_pc dec2 dec_hist2 other =
              Some (other @ more)"
      by blast
    have "print_disassembly_while M X this end' pc_offset gp pc dec dec_hist other =
              Some (other @ printed @ more)" for other
      using r [rule_format, of "other @ printed"] True d p
      by (subst print_disassembly_while.simps) simp
    with o show ?thesis
      by (intro exI [of _ "printed @ more"]) simp
  qed
qed

lemma print_while_out:
  "print_disassembly_while M X this end' pc_offset gp pc dec dec_hist out =
   map_option ((@) out) (print_disassembly_while M X this end' pc_offset gp pc dec dec_hist [])"
proof (cases "print_disassembly_while M X this end' pc_offset gp pc dec dec_hist []")
  case None
  show ?thesis
  proof (cases "print_disassembly_while M X this end' pc_offset gp pc dec dec_hist out")
    case (Some out')
    from print_while_appends [OF this] None show ?thesis
      by auto
  qed (simp add: None)
next
  case (Some printed)
  from print_while_appends [OF this] show ?thesis
    by auto
qed

text \<open>The two loops over the section headers visit the executable regions, in order.\<close>

lemma scan_for_phase:
  "scan_branch_labels_for M X hdrs this = scan_phase X (exec_regions M i hdrs) this"
proof (induction hdrs arbitrary: i this)
  case Nil
  show ?case by (simp add: exec_regions_def)
next
  case (Cons shdr rest)
  from Cons [of _ "Suc i"] show ?case
    by (simp add: exec_regions_def split: option.split)
qed

lemma print_for_phase:
  "print_disassembly_for M X this gp_sym i hdrs out =
   map_option ((@) out)
     (print_phase M X this (case gp_sym of Some sym' \<Rightarrow> st_value sym' | None \<Rightarrow> 0)
        (exec_regions M i hdrs))"
proof (induction hdrs arbitrary: i out)
  case Nil
  show ?case by (simp add: exec_regions_def)
next
  case (Cons shdr rest)
  show ?case
  proof (cases "sh_flags shdr AND SHF_EXECINSTR M \<noteq> 0")
    case False
    with Cons [of "Suc i" out] show ?thesis
      by (simp add: exec_regions_def)
  next
    case True
    let ?gp = "case gp_sym of Some sym' \<Rightarrow> st_value sym' | None \<Rightarrow> 0"
    let ?walk = "\<lambda>out. print_disassembly_range M X this
                (offset (elf this) (sh_offset shdr))
                (offset (elf this) (sh_offset shdr) + sh_size shdr)
                (offset (elf this) (sh_offset shdr) - sh_addr shdr) ?gp out"
    have w: "?walk (out @ section_title M X this i (sh_name shdr)) =
        map_option ((@) (out @ section_title M X this i (sh_name shdr))) (?walk [])"
      unfolding print_disassembly_range_def by (rule print_while_out)
    have e: "exec_regions M i (shdr # rest) = (i, shdr) # exec_regions M (Suc i) rest"
      using True by (simp add: exec_regions_def)
    show ?thesis
    proof (cases "?walk []")
      case None
      with w True show ?thesis
        by (simp add: e)
    next
      case (Some printed)
      with w True Cons [of "Suc i" "out @ section_title M X this i (sh_name shdr) @ printed"]
      show ?thesis
        by (simp add: e split: option.split)
    qed
  qed
qed

text \<open>
  Claim C5. When the container is loaded, the disassembly is requested and the architecture
  is \<^verbatim>\<open>EM_RISCV\<close>, \<^verbatim>\<open>run\<close> is the two phases one after the other. The Label Scanner is
  run over all executable regions, from an empty table; if it does not return, nothing of
  the disassembly is printed. Then every executable region is printed against the parser
  state the scan of all regions returned, and so against the complete Label Table.
\<close>

theorem run_scans_all_then_prints:
  assumes "elf_load X (elf this) (filename this) = Inr loaded"
    and "disassebly this"
    and "e_machine (ehdr loaded) = EM_RISCV M"
  shows "run M X this =
         (case scan_phase X (exec_regions M 0 (shdrs loaded))
                 (this\<lparr>elf := loaded, branch_labels := Map.empty\<rparr>) of
            None \<Rightarrow> None
          | Some scanned \<Rightarrow>
              (case print_phase M X scanned (gp_value loaded) (exec_regions M 0 (shdrs loaded)) of
                 None \<Rightarrow> None
               | Some printed \<Rightarrow>
                   Some (Inr (scanned,
                     print_sections M X (this\<lparr>elf := loaded\<rparr>)
                       @ print_heading M X (this\<lparr>elf := loaded\<rparr>) ''Disassembly''
                       @ printed @ newline))))"
proof -
  let ?this1 = "this\<lparr>elf := loaded\<rparr>"
  let ?regions = "exec_regions M 0 (shdrs loaded)"
  have s: "scan_branch_labels M X ?this1 =
      scan_phase X ?regions (this\<lparr>elf := loaded, branch_labels := Map.empty\<rparr>)"
    by (simp add: scan_branch_labels_def scan_for_phase [of _ _ _ _ 0])
  show ?thesis
  proof (cases "scan_branch_labels M X ?this1")
    case None
    with assms s show ?thesis
      by (simp add: run_def Let_def)
  next
    case (Some scanned)
    with scan_for_state [of M X "shdrs (elf ?this1)" "?this1\<lparr>branch_labels := Map.empty\<rparr>" scanned]
    obtain l where "scanned = ?this1\<lparr>branch_labels := l\<rparr>"
      by (auto simp: scan_branch_labels_def)
    then have e: "elf scanned = loaded"
      by simp
    have p: "print_disassembly M X scanned out =
        map_option ((@) out) (print_phase M X scanned (gp_value loaded) ?regions)" for out
      by (simp add: print_disassembly_def print_for_phase e gp_value_def)
    from s Some have sp: "scan_phase X ?regions
        (this\<lparr>elf := loaded, branch_labels := Map.empty\<rparr>) = Some scanned"
      by simp
    have "run M X this =
        (case print_disassembly M X scanned
                (print_sections M X ?this1 @ print_heading M X ?this1 ''Disassembly'') of
           None \<Rightarrow> None
         | Some out2 \<Rightarrow> Some (Inr (scanned, out2 @ newline)))"
      using assms Some by (simp add: run_def Let_def)
    also have "\<dots> =
        (case print_phase M X scanned (gp_value loaded) ?regions of
           None \<Rightarrow> None
         | Some printed \<Rightarrow>
             Some (Inr (scanned,
               print_sections M X ?this1 @ print_heading M X ?this1 ''Disassembly''
                 @ printed @ newline)))"
      by (cases "print_phase M X scanned (gp_value loaded) ?regions") (simp_all add: p)
    finally show ?thesis
      by (simp add: sp)
  qed
qed

text \<open>
  The container with two executable sections. The scan of section 0 alone leaves the table
  with the one key 1000; address 1008, where section 0 lies, gets its name only in the scan
  of section 1. The line printed for section 0 shows that name: section 0 is printed against
  the table the scan of both sections left. Printed against the table of its own scan alone,
  the same line would show no name for 1008.
\<close>

theorem run_scans_all_then_prints_witness:
  "elf_load demo2 (elf demo_parser) (filename demo_parser) = Inr demo_elf2 \<and>
   disassebly demo_parser \<and>
   e_machine (ehdr demo_elf2) = EM_RISCV demo_macros \<and>
   exec_regions demo_macros 0 (shdrs demo_elf2) =
     [(0, \<lparr>sh_name = ''.init'', sh_flags = 6, sh_addr = 1008, sh_offset = 8, sh_size = 4\<rparr>),
      (1, \<lparr>sh_name = ''.text'', sh_flags = 6, sh_addr = 1000, sh_offset = 0, sh_size = 8\<rparr>)] \<and>
   scan_phase demo2
       [(0, \<lparr>sh_name = ''.init'', sh_flags = 6, sh_addr = 1008, sh_offset = 8, sh_size = 4\<rparr>)]
       (demo_parser\<lparr>elf := demo_elf2\<rparr>) =
     Some (demo_parser\<lparr>elf := demo_elf2, branch_labels := [1000 \<mapsto> ''LOC_000001'']\<rparr>) \<and>
   print_phase demo_macros demo2
       (demo_parser\<lparr>elf := demo_elf2, branch_labels := [1000 \<mapsto> ''LOC_000001'']\<rparr>) 0
       [(0, \<lparr>sh_name = ''.init'', sh_flags = 6, sh_addr = 1008, sh_offset = 8, sh_size = 4\<rparr>)] =
     Some (section_title demo_macros demo2 demo_parser 0 ''.init''
             @ ''- LOC_000001'' @ newline) \<and>
   run demo_macros demo2 demo_parser =
     Some (Inr (demo_parser\<lparr>elf := demo_elf2,
                  branch_labels := [1000 \<mapsto> ''LOC_000001'', 1008 \<mapsto> ''LOC_000002'']\<rparr>,
       print_heading demo_macros demo2 demo_parser ''Disassembly''
         @ section_title demo_macros demo2 demo_parser 0 ''.init''
         @ ''LOC_000002 LOC_000001'' @ newline
         @ section_title demo_macros demo2 demo_parser 1 ''.text''
         @ ''LOC_000001 LOC_000002'' @ newline
         @ ''- LOC_000002'' @ newline
         @ newline))"
proof -
  let ?init = "\<lparr>sh_name = ''.init'', sh_flags = 6, sh_addr = 1008, sh_offset = 8, sh_size = 4\<rparr>"
  let ?text = "\<lparr>sh_name = ''.text'', sh_flags = 6, sh_addr = 1000, sh_offset = 0, sh_size = 8\<rparr>"
  let ?P = "demo_parser\<lparr>elf := demo_elf2\<rparr>"
  let ?first = "demo_parser\<lparr>elf := demo_elf2, branch_labels := [1000 \<mapsto> ''LOC_000001'']\<rparr>"
  let ?scanned = "demo_parser\<lparr>elf := demo_elf2,
      branch_labels := [1000 \<mapsto> ''LOC_000001'', 1008 \<mapsto> ''LOC_000002'']\<rparr>"
  have x: "riscv_decode_new demo2 = \<lparr>type = riscv_inst_type_other, imm = 0\<rparr>"
      "riscv_decode_instruction demo2 = demo_decode"
      "riscv_decode_decompress demo2 = (\<lambda>dec. dec)"
      "riscv_disasm_instruction demo2 = demo_disasm"
    by (simp_all add: demo2_def demo_def)
  have h1: "elf_load demo2 (elf demo_parser) (filename demo_parser) = Inr demo_elf2"
    by (simp add: demo2_def)
  have h2: "disassebly demo_parser"
    by (simp add: demo_parser_def)
  have h3: "e_machine (ehdr demo_elf2) = EM_RISCV demo_macros"
    by (simp add: demo_elf2_def demo_macros_def)
  have regions: "exec_regions demo_macros 0 (shdrs demo_elf2) = [(0, ?init), (1, ?text)]"
    by (simp add: exec_regions_def demo_elf2_def demo_macros_def)
  have o: "offset demo_elf2 8 = 108" "offset demo_elf2 0 = 100"
    by (simp_all add: demo_elf2_def)
  have r0: "scan_branch_labels_range demo2 ?P 108 112 (108 - 1008) = Some ?first"
    by (simp add: scan_branch_labels_range_def scan_branch_labels_while.simps x
        demo_parser_def demo_decode_def snprintf_LOC_1)
  have r1: "scan_branch_labels_range demo2 ?first 100 108 (100 - 1000) = Some ?scanned"
    by (simp add: scan_branch_labels_range_def scan_branch_labels_while.simps x
        demo_decode_def snprintf_LOC_1 snprintf_LOC_2)
  have scan0: "scan_phase demo2 [(0, ?init)] ?P = Some ?first"
    using r0 by (simp add: o)
  have scan: "scan_phase demo2 [(0, ?init), (1, ?text)] ?P = Some ?scanned"
    using r0 r1 by (simp add: o)
  have gp: "gp_value demo_elf2 = 0"
    by (simp add: gp_value_def elf_sym_by_name_def demo_elf2_def)
  have names: "fst (symlookup ?scanned 1000) = Some ''LOC_000001''"
      "fst (symlookup ?scanned 1004) = None"
      "fst (symlookup ?scanned 1008) = Some ''LOC_000002''"
      "fst (symlookup ?first 1000) = Some ''LOC_000001''"
      "fst (symlookup ?first 1008) = None"
    by (simp_all add: symlookup_def elf_sym_by_addr_def demo_elf2_def)
  have walk0: "print_disassembly_range demo_macros demo2 ?scanned 108 112 (108 - 1008) 0 [] =
      Some (''LOC_000002 LOC_000001'' @ newline)"
    by (simp add: print_disassembly_range_def print_disassembly_while.simps x
        demo_decode_def demo_disasm_def names)
  have walk1: "print_disassembly_range demo_macros demo2 ?scanned 100 108 (100 - 1000) 0 [] =
      Some (''LOC_000001 LOC_000002'' @ newline @ ''- LOC_000002'' @ newline)"
    by (simp add: print_disassembly_range_def print_disassembly_while.simps x
        demo_decode_def demo_disasm_def names)
  have early: "print_disassembly_range demo_macros demo2 ?first 108 112 (108 - 1008) 0 [] =
      Some (''- LOC_000001'' @ newline)"
    by (simp add: print_disassembly_range_def print_disassembly_while.simps x
        demo_decode_def demo_disasm_def names)
  have title: "section_title demo_macros demo2 ?scanned i name =
      section_title demo_macros demo2 demo_parser i name"
      "section_title demo_macros demo2 ?first i name =
      section_title demo_macros demo2 demo_parser i name" for i name
    by (simp_all add: section_title_def colorize_def)
  have heading: "print_heading demo_macros demo2 ?P ''Disassembly'' =
      print_heading demo_macros demo2 demo_parser ''Disassembly''"
    by (simp add: print_heading_def colorize_def)
  have print0: "print_phase demo_macros demo2 ?first 0 [(0, ?init)] =
      Some (section_title demo_macros demo2 demo_parser 0 ''.init'' @ ''- LOC_000001'' @ newline)"
    using early by (simp add: o title)
  have print: "print_phase demo_macros demo2 ?scanned 0 [(0, ?init), (1, ?text)] =
      Some (section_title demo_macros demo2 demo_parser 0 ''.init''
              @ ''LOC_000002 LOC_000001'' @ newline
              @ section_title demo_macros demo2 demo_parser 1 ''.text''
              @ ''LOC_000001 LOC_000002'' @ newline @ ''- LOC_000002'' @ newline)"
    using walk0 walk1 by (simp add: o title)
  have sections: "print_sections demo_macros demo2 ?P = []"
    by (simp add: print_sections_def demo_parser_def)
  have start: "demo_parser\<lparr>elf := demo_elf2, branch_labels := Map.empty\<rparr> = ?P"
    by (simp add: demo_parser_def)
  have "run demo_macros demo2 demo_parser =
     Some (Inr (?scanned,
       print_sections demo_macros demo2 ?P
         @ print_heading demo_macros demo2 ?P ''Disassembly''
         @ (section_title demo_macros demo2 demo_parser 0 ''.init''
              @ ''LOC_000002 LOC_000001'' @ newline
              @ section_title demo_macros demo2 demo_parser 1 ''.text''
              @ ''LOC_000001 LOC_000002'' @ newline @ ''- LOC_000002'' @ newline)
         @ newline))"
    using run_scans_all_then_prints [OF h1 h2 h3]
    by (simp only: regions start scan gp print option.case)
  then have "run demo_macros demo2 demo_parser =
     Some (Inr (?scanned,
       print_heading demo_macros demo2 demo_parser ''Disassembly''
         @ section_title demo_macros demo2 demo_parser 0 ''.init''
         @ ''LOC_000002 LOC_000001'' @ newline
         @ section_title demo_macros demo2 demo_parser 1 ''.text''
         @ ''LOC_000001 LOC_000002'' @ newline
         @ ''- LOC_000002'' @ newline
         @ newline))"
    by (simp add: sections heading)
  with h1 h2 h3 regions scan0 print0 show ?thesis
    by simp
qed

subsection \<open>The colorizer\<close>











end
